theory Spec2Isabelle
  imports Complex_Main "HOL-Library.Multiset"
begin

section \<open>Smart Growth Chamber dashboard: the data pipeline of streamlit_app_thingspeak.py\<close>

text \<open>
  The embedding follows the source function by function. Conventions:
  \<^item> a pandas timestamp is its count of nanoseconds since the epoch, a 64-bit integer:
    it is an \<open>int\<close> here, and where the source computes a timestamp or a duration the
    model raises, as pandas does, when the result leaves the 64-bit range;
  \<^item> a Python float is a \<open>real\<close>; a missing value (None, NaN, NaT) is \<open>None\<close>.
    Comparison is exact on floats, so the threshold functions are modelled exactly for
    finite values (the float nearest to 6.8 and the real 6.8 bound the same floats); the
    rounding of \<open>*\<close>, \<open>+\<close> and of the mean is not modelled, and \<open>inf\<close> is outside the
    model;
  \<^item> a Python string is a \<open>string\<close>, each \<open>char\<close> read as a code point below 256;
  \<^item> an exception is a value \<open>Inl e\<close> of a sum type;
  \<^item> what the source obtains from outside the repository (the HTTP service, the parsers
    behind \<open>pd.to_datetime\<close> and \<open>pd.to_numeric\<close>, the zone database) is a parameter.
\<close>

subsection \<open>Configuration constants (lines 9-21)\<close>

datatype py_error =
  KeyError | HTTPError | JSONDecodeError | ResampleError
  | OutOfBoundsDatetime | OutOfBoundsTimedelta

definition CHANNEL_SOIL :: int where "CHANNEL_SOIL = 2869579"
definition CHANNEL_ENV :: int where "CHANNEL_ENV = 2913085"
definition DEFAULT_TIMEZONE :: string where "DEFAULT_TIMEZONE = ''America/Monterrey''"
definition DEFAULT_RES_MIN :: int where "DEFAULT_RES_MIN = 10"
definition MAX_POINTS :: int where "MAX_POINTS = 8000"

definition LIMITS_MAIN :: "string \<rightharpoonup> real \<times> real" where
  "LIMITS_MAIN =
     [''soil_moist'' \<mapsto> (25, 50),
      ''air_temp'' \<mapsto> (20, 30),
      ''air_hum'' \<mapsto> (40, 60),
      ''soil_ph'' \<mapsto> (5.5, 6.8)]"

subsection \<open>Threshold colouring (lines 23-33)\<close>

text \<open>\<open>_in_range(val, lo_hi)\<close>: \<open>(val is not None) and (lo <= val <= hi)\<close>.\<close>

definition in_range :: "real option \<Rightarrow> real \<times> real \<Rightarrow> bool" where
  "in_range val lo_hi =
     (case lo_hi of (lo, hi) \<Rightarrow>
        (case val of None \<Rightarrow> False | Some v \<Rightarrow> lo \<le> v \<and> v \<le> hi))"

text \<open>
  \<open>_bg_for_main(metric_key, value)\<close>: the card's background. The test for None comes
  first, so an unknown key raises KeyError only for a value that is present.
\<close>

definition bg_for_main :: "string \<Rightarrow> real option \<Rightarrow> py_error + string" where
  "bg_for_main metric_key value =
     (if value = None then Inr ''#3F4F61''
      else (case LIMITS_MAIN metric_key of
              None \<Rightarrow> Inl KeyError
            | Some lo_hi \<Rightarrow> Inr (if \<not> in_range value lo_hi then ''red'' else ''#3F4F61'')))"

subsection \<open>Label cleaning (lines 93-96, 141-147)\<close>

text \<open>
  Python's \<open>\s\<close> on a str pattern and \<open>str.strip()\<close> use the same whitespace test
  (\<open>str.isspace\<close>); below 256 it holds of the code points 9-13, 28-32, 133 and 160.
\<close>

definition is_space :: "char \<Rightarrow> bool" where
  "is_space c = (of_char c \<in> {9, 10, 11, 12, 13, 28, 29, 30, 31, 32, 133, 160 :: nat})"

text \<open>\<open>re.sub(r'\s+', ' ', s)\<close>: every maximal run of whitespace becomes one space.\<close>

function collapse_ws :: "string \<Rightarrow> string" where
  "collapse_ws [] = []"
| "collapse_ws (c # cs) =
     (if is_space c then CHR '' '' # collapse_ws (dropWhile is_space cs)
      else c # collapse_ws cs)"
  by pat_completeness auto
termination
  by (relation "measure length") (auto simp: length_dropWhile_le less_Suc_eq_le)

text \<open>\<open>s.strip()\<close>: whitespace removed at both ends.\<close>

definition strip :: "string \<Rightarrow> string" where
  "strip s = rev (dropWhile is_space (rev (dropWhile is_space s)))"

definition clean :: "string \<Rightarrow> string" where
  "clean s = (if s = [] then [] else strip (collapse_ws s))"

text \<open>
  \<open>f"field{i}"\<close> for the loop's \<open>i\<close> in \<open>range(1, 9)\<close>: one decimal digit after the
  prefix. (The definition is only used below 10.)
\<close>

definition digit :: "nat \<Rightarrow> char" where
  "digit d = ''0123456789'' ! (d mod 10)"

definition field_key :: "nat \<Rightarrow> string" where
  "field_key i = ''field'' @ [digit i]"

text \<open>\<open>meta.get(key, "")\<close> and \<open>x or key\<close> (the empty string is falsy).\<close>

definition get_or :: "(string \<rightharpoonup> string) \<Rightarrow> string \<Rightarrow> string \<Rightarrow> string" where
  "get_or meta key dflt = (case meta key of None \<Rightarrow> dflt | Some v \<Rightarrow> v)"

definition label_step :: "(string \<rightharpoonup> string) \<Rightarrow> nat \<Rightarrow> (string \<rightharpoonup> string) \<Rightarrow> (string \<rightharpoonup> string)" where
  "label_step meta i mapping =
     (let key = field_key i;
          cleaned = clean (get_or meta key []);
          name = (if cleaned \<noteq> [] then cleaned else key)
      in mapping(key \<mapsto> name))"

definition label_map_from_meta :: "(string \<rightharpoonup> string) \<Rightarrow> (string \<rightharpoonup> string)" where
  "label_map_from_meta meta = fold (label_step meta) [1..<9] Map.empty"

subsection \<open>Tables and series\<close>

text \<open>
  A normalized table: the column names and, per row, the index timestamp (zone-naive
  local time) with the numeric cells; a cell that is \<open>None\<close> is missing. The cells of
  the columns that are not numeric (\<open>created_at\<close>) are not represented: no function
  below reads them.
\<close>

record dataframe =
  columns :: "string list"
  rows :: "(int \<times> (string \<rightharpoonup> real)) list"

type_synonym series = "(int \<times> real option) list"

definition empty_frame :: dataframe where
  "empty_frame = \<lparr>columns = [], rows = []\<rparr>"

text \<open>\<open>df.empty\<close>: some axis has length 0.\<close>

definition df_empty :: "dataframe \<Rightarrow> bool" where
  "df_empty df = (rows df = [] \<or> columns df = [])"

text \<open>\<open>df[field]\<close> for a field among the columns.\<close>

definition col :: "dataframe \<Rightarrow> string \<Rightarrow> series" where
  "col df field = map (\<lambda>(ts, cells). (ts, cells field)) (rows df)"

definition dropna :: "series \<Rightarrow> series" where
  "dropna s = filter (\<lambda>(ts, v). v \<noteq> None) s"

subsection \<open>Fetching and normalizing (lines 98-139)\<close>

datatype pval = PStr string | PInt int

record date =
  year :: nat
  month :: nat
  day :: nat

text \<open>\<open>str(date)\<close>: ISO format, zero padded.\<close>

definition date_str :: "date \<Rightarrow> string" where
  "date_str d =
     [digit (year d div 1000), digit (year d div 100), digit (year d div 10), digit (year d)]
     @ ''-'' @ [digit (month d div 10), digit (month d)]
     @ ''-'' @ [digit (day d div 10), digit (day d)]"

text \<open>
  A time zone: the name sent to the service and the conversion pandas resolves it to,
  from an absolute instant to the zone's wall clock.
\<close>

record timezone =
  tz_name :: string
  wall_clock :: "int \<Rightarrow> int"

text \<open>Lines 103-110: the query parameters.\<close>

definition request_params ::
  "timezone \<Rightarrow> bool \<Rightarrow> date \<Rightarrow> date \<Rightarrow> int \<Rightarrow> string option \<Rightarrow> (string \<rightharpoonup> pval)" where
  "request_params tz use_range start_date end_date max_points read_key =
     (let params = [''timezone'' \<mapsto> PStr (tz_name tz)];
          params = (if use_range
                    then params(''start'' \<mapsto> PStr (date_str start_date @ '' 00:00:00''),
                                ''end'' \<mapsto> PStr (date_str end_date @ '' 23:59:59''))
                    else params(''results'' \<mapsto> PInt max_points))
      in (case read_key of
            None \<Rightarrow> params
          | Some k \<Rightarrow> if k \<noteq> [] then params(''api_key'' \<mapsto> PStr k) else params))"

text \<open>
  One row object of the \<open>feeds\<close> array: keys with a JSON scalar as its text, or null.
\<close>

type_synonym feed = "(string \<times> string option) list"

record payload =
  channel :: "(string \<rightharpoonup> string) option"
  feeds :: "feed list option"

text \<open>\<open>pd.DataFrame(feeds).columns\<close>: the keys of all rows, in order of first appearance.\<close>

definition add_col :: "string \<Rightarrow> string list \<Rightarrow> string list" where
  "add_col k acc = (if k \<in> set acc then acc else acc @ [k])"

definition frame_columns :: "feed list \<Rightarrow> string list" where
  "frame_columns fs = fold add_col (concat (map (map fst) fs)) []"

text \<open>A raw cell: missing when the row lacks the key or holds null.\<close>

definition raw :: "feed \<Rightarrow> string \<Rightarrow> string option" where
  "raw r k = (case map_of r k of Some (Some s) \<Rightarrow> Some s | _ \<Rightarrow> None)"

definition startswith :: "string \<Rightarrow> string \<Rightarrow> bool" where
  "startswith s p = (take (length p) s = p)"

text \<open>
  Lines 117-139. \<open>to_datetime\<close> is the parser of \<open>pd.to_datetime(utc=True,
  errors="coerce")\<close> on one cell (None for NaT), \<open>to_numeric\<close> that of
  \<open>pd.to_numeric(errors="coerce")\<close>. \<open>sort_index\<close> runs on the zone-aware index, which
  pandas orders by instant; the zone is dropped afterwards. pandas leaves the order of
  rows with equal keys open; the model's sort is stable.
\<close>

definition numeric_cells :: "(string \<Rightarrow> real option) \<Rightarrow> string list \<Rightarrow> feed \<Rightarrow> (string \<rightharpoonup> real)" where
  "numeric_cells to_numeric cols r =
     (\<lambda>c. if c \<in> set cols \<and> startswith c ''field'' then Option.bind (raw r c) to_numeric else None)"

text \<open>The instant of a row: NaT when \<open>created_at\<close> is missing or does not parse.\<close>

definition instant :: "(string \<Rightarrow> int option) \<Rightarrow> feed \<Rightarrow> int option" where
  "instant to_datetime r = Option.bind (raw r ''created_at'') to_datetime"

definition normalize ::
  "(string \<Rightarrow> int option) \<Rightarrow> (string \<Rightarrow> real option) \<Rightarrow> timezone \<Rightarrow> feed list
     \<Rightarrow> py_error + dataframe" where
  "normalize to_datetime to_numeric tz fs =
     (let cols = frame_columns fs in
      if fs = [] \<or> cols = [] then Inr empty_frame
      else if ''created_at'' \<notin> set cols then Inl KeyError
      else
        let parsed = map (\<lambda>r. (instant to_datetime r, r)) fs;
            kept = concat (map (\<lambda>(t, r). case t of None \<Rightarrow> [] | Some i \<Rightarrow> [(i, r)]) parsed);
            ordered = sort_key fst kept;
            cols' = removeAll ''created_at_local'' cols
        in Inr \<lparr>columns = cols',
                rows = map (\<lambda>(i, r). (wall_clock tz i, numeric_cells to_numeric cols' r)) ordered\<rparr>)"

definition fetch_thingspeak ::
  "(int \<Rightarrow> (string \<rightharpoonup> pval) \<Rightarrow> py_error + payload) \<Rightarrow>
   (string \<Rightarrow> int option) \<Rightarrow> (string \<Rightarrow> real option) \<Rightarrow>
   int \<Rightarrow> timezone \<Rightarrow> bool \<Rightarrow> date \<Rightarrow> date \<Rightarrow> int \<Rightarrow> string option
     \<Rightarrow> py_error + (string \<rightharpoonup> string) \<times> dataframe" where
  "fetch_thingspeak http to_datetime to_numeric channel_id tz use_range start_date end_date
       max_points read_key =
     (case http channel_id (request_params tz use_range start_date end_date max_points read_key) of
        Inl e \<Rightarrow> Inl e
      | Inr p \<Rightarrow>
          let channel_meta = (case channel p of None \<Rightarrow> Map.empty | Some m \<Rightarrow> m);
              fs = (case feeds p of None \<Rightarrow> [] | Some f \<Rightarrow> f)
          in (case normalize to_datetime to_numeric tz fs of
                Inl e \<Rightarrow> Inl e
              | Inr df \<Rightarrow> Inr (channel_meta, df)))"

subsection \<open>Latest value (lines 149-157, 191-205)\<close>

text \<open>\<open>s.tail(1)\<close>.\<close>

definition tail1 :: "'a list \<Rightarrow> 'a list" where
  "tail1 s = drop (length s - 1) s"

definition latest_value :: "dataframe \<Rightarrow> string \<Rightarrow> real option \<times> int option" where
  "latest_value df field =
     (if df_empty df \<or> field \<notin> set (columns df) then (None, None)
      else (case tail1 (dropna (col df field)) of
              [] \<Rightarrow> (None, None)
            | (ts, val) # _ \<Rightarrow> (val, Some ts)))"

text \<open>\<open>s.iloc[-1]\<close> of a series that was tested non-empty.\<close>

definition last_param :: "dataframe \<Rightarrow> string \<Rightarrow> real option" where
  "last_param df field =
     (if field \<in> set (columns df)
      then (let s = dropna (col df field) in if s \<noteq> [] then snd (last s) else None)
      else None)"

definition latest_lin_params :: "dataframe \<Rightarrow> real option \<times> real option" where
  "latest_lin_params df_env =
     (let m = (if \<not> df_empty df_env then last_param df_env ''field5'' else None);
          b = (if \<not> df_empty df_env then last_param df_env ''field6'' else None)
      in if m = None \<or> b = None then (None, None) else (m, b))"

subsection \<open>Resampling (lines 159-162)\<close>

definition minute_ns :: int where "minute_ns = 60000000000"
definition day_ns :: int where "day_ns = 86400000000000"

text \<open>
  The range of \<open>pd.Timestamp\<close> (the smallest 64-bit value stands for NaT) and the
  largest \<open>pd.Timedelta\<close>, in nanoseconds.
\<close>

definition ts_min :: int where "ts_min = - 9223372036854775807"
definition ts_max :: int where "ts_max = 9223372036854775807"
definition td_max :: int where "td_max = 9223372036854775807"

text \<open>The mean of a group, NaN for a group without values.\<close>

definition mean :: "real list \<Rightarrow> real option" where
  "mean vs = (if vs = [] then None else Some (sum_list vs / real (length vs)))"

text \<open>The non-missing values of the series whose timestamp lies in \<open>[lo, hi)\<close>.\<close>

definition bucket_values :: "series \<Rightarrow> int \<Rightarrow> int \<Rightarrow> real list" where
  "bucket_values s lo hi =
     concat (map (\<lambda>(ts, v). case v of None \<Rightarrow> []
                              | Some x \<Rightarrow> if lo \<le> ts \<and> ts < hi then [x] else []) s)"

text \<open>
  \<open>s.resample(w, label="right").mean()\<close> for a minute frequency of \<open>w\<close> nanoseconds:
  the bins are closed on the left (the default of this frequency), anchored at the
  midnight of the first timestamp's day, and run without a gap from the bin of the
  smallest timestamp to the bin of the largest; each is labelled with its right edge.
  The width is a \<open>Timedelta\<close> and the midnight and the bin edges are \<open>Timestamp\<close>s:
  pandas raises when one of them is out of range.
\<close>

definition resample_mean :: "series \<Rightarrow> int \<Rightarrow> py_error + series" where
  "resample_mean s w =
     (if s = [] then Inr []
      else
        let first = fold min (map fst s) (fst (hd s));
            last = fold max (map fst s) (fst (hd s));
            origin = first - first mod day_ns;
            start = first - (first - origin) mod w;
            stop = last + (w - (last - origin) mod w);
            nbins = nat ((stop - start) div w)
        in if td_max < w then Inl OutOfBoundsTimedelta
           else if origin < ts_min \<or> ts_max < stop then Inl OutOfBoundsDatetime
           else Inr (map (\<lambda>k. let lo = start + int k * w
                               in (lo + w, mean (bucket_values s lo (lo + w))))
                         [0..<nbins]))"

text \<open>
  \<open>resample_series(df, field, minutes)\<close>. The sidebar control gives \<open>minutes \<ge> 1\<close>;
  pandas raises on a frequency that is not positive.
\<close>

definition resample_series :: "dataframe \<Rightarrow> string \<Rightarrow> int \<Rightarrow> py_error + series" where
  "resample_series df field minutes =
     (if df_empty df \<or> field \<notin> set (columns df) then Inr []
      else if minutes \<le> 0 then Inl ResampleError
      else resample_mean (col df field) (minutes * minute_ns))"

subsection \<open>The air temperature chart with its trend (lines 249-316)\<close>

text \<open>
  What \<open>plot_air_temp_with_trend\<close> hands to the chart: the warning, or the working
  series with the trend trace (timestamps and values) when one is added. The card above
  the chart and the invisible trace that puts \<open>r\<close> into the legend are left out; \<open>res_min\<close>,
  a global of the script, is an argument. The step of the axis is a \<open>Timedelta\<close>, the
  difference of two timestamps or \<open>res_min\<close> minutes: pandas raises when it is out of
  range.
\<close>

datatype plot = Warning | Figure series "(int \<times> real) list option"

text \<open>
  \<open>pd.date_range(start, periods, freq)\<close> for a fixed step: pandas raises
  OutOfBoundsDatetime when the range does not fit into the timestamps, which it does
  exactly when its first and its last point do.
\<close>

definition date_range :: "int \<Rightarrow> nat \<Rightarrow> int \<Rightarrow> py_error + int list" where
  "date_range start periods freq =
     (let stop = start + int (periods - 1) * freq in
      if start < ts_min \<or> ts_max < start \<or> stop < ts_min \<or> ts_max < stop
      then Inl OutOfBoundsDatetime
      else Inr (map (\<lambda>k. start + int k * freq) [0..<periods]))"

definition plot_air_temp_with_trend :: "dataframe \<Rightarrow> int \<Rightarrow> py_error + plot" where
  "plot_air_temp_with_trend df_env res_min =
     (if df_empty df_env \<or> ''field1'' \<notin> set (columns df_env) then Inr Warning
      else (case resample_series df_env ''field1'' res_min of
              Inl e \<Rightarrow> Inl e
            | Inr resampled \<Rightarrow>
                let series = dropna resampled in
                (case latest_lin_params df_env of
                   (Some m, Some b) \<Rightarrow>
                     if series \<noteq> [] then
                       let n = min 30 (length series);
                           idx = drop (length series - n) (map fst series);
                           steps_future = 100;
                           x = [0..<n + steps_future];
                           yhat = map (\<lambda>xi. m * real xi + b) x;
                           freq = (if length idx > 1 then idx ! 1 - idx ! 0
                                   else res_min * minute_ns)
                       in if freq < - td_max \<or> td_max < freq then Inl OutOfBoundsTimedelta
                          else (case date_range (idx ! 0) (length x) freq of
                                  Inl e \<Rightarrow> Inl e
                                | Inr idx_ext \<Rightarrow> Inr (Figure series (Some (zip idx_ext yhat))))
                     else Inr (Figure series None)
                 | _ \<Rightarrow> Inr (Figure series None))))"

subsection \<open>The specification's vocabulary\<close>

text \<open>
  The three-way classification of the specification and the colour the dashboard gives
  each class (grey for a value in range and for no data, red out of range).
\<close>

datatype classification = inRange | outOfRange | noData

definition classify_spec :: "real \<times> real \<Rightarrow> real option \<Rightarrow> classification" where
  "classify_spec band value =
     (case value of
        None \<Rightarrow> noData
      | Some v \<Rightarrow> if v < fst band \<or> snd band < v then outOfRange else inRange)"

definition card_colour :: "classification \<Rightarrow> string" where
  "card_colour c = (case c of outOfRange \<Rightarrow> ''red'' | _ \<Rightarrow> ''#3F4F61'')"

text \<open>
  Trimming and collapsing whitespace, said with words: the label is cut into its maximal
  runs of characters that are not whitespace, and the runs are joined by single spaces.
\<close>

function split_ws :: "string \<Rightarrow> string list" where
  "split_ws s =
     (case dropWhile is_space s of
        [] \<Rightarrow> []
      | c # cs \<Rightarrow> (c # takeWhile (\<lambda>x. \<not> is_space x) cs)
                   # split_ws (dropWhile (\<lambda>x. \<not> is_space x) cs))"
  by pat_completeness auto
termination
proof (relation "measure length", goal_cases)
  case 1
  show ?case by simp
next
  case (2 s c cs)
  have "length (dropWhile (\<lambda>x. \<not> is_space x) cs) \<le> length cs"
    by (rule length_dropWhile_le)
  moreover have "length (dropWhile is_space s) \<le> length s"
    by (rule length_dropWhile_le)
  ultimately show ?case using 2 by simp
qed

declare split_ws.simps [simp del]

fun join_sp :: "string list \<Rightarrow> string" where
  "join_sp [] = []"
| "join_sp [w] = w"
| "join_sp (w # v # ws) = w @ CHR '' '' # join_sp (v # ws)"

definition rstrip :: "string \<Rightarrow> string" where
  "rstrip s = rev (dropWhile is_space (rev s))"

text \<open>The anchor window of a working series: the timestamps of its last 30 points, or of all.\<close>

definition anchor :: "series \<Rightarrow> int list" where
  "anchor s = drop (length s - min 30 (length s)) (map fst s)"

text \<open>The step of the projected axis, inferred from the anchor window.\<close>

definition anchor_step :: "series \<Rightarrow> int \<Rightarrow> int" where
  "anchor_step s res_min =
     (if length (anchor s) > 1 then anchor s ! 1 - anchor s ! 0 else res_min * minute_ns)"

text \<open>The non-missing values of a series whose timestamp falls within \<open>[lo, hi)\<close>.\<close>

definition in_bucket :: "series \<Rightarrow> int \<Rightarrow> int \<Rightarrow> real list" where
  "in_bucket s lo hi =
     map (the \<circ> snd) (filter (\<lambda>(ts, v). v \<noteq> None \<and> lo \<le> ts \<and> ts < hi) s)"

text \<open>
  The projected axis fits into the timestamps: its step is a duration, and its first and
  its last point are timestamps.
\<close>

definition projection_fits :: "series \<Rightarrow> int \<Rightarrow> bool" where
  "projection_fits s res_min =
     (- td_max \<le> anchor_step s res_min \<and> anchor_step s res_min \<le> td_max
      \<and> ts_min \<le> hd (anchor s) \<and> hd (anchor s) \<le> ts_max
      \<and> ts_min \<le> hd (anchor s) + int (min 30 (length s) + 99) * anchor_step s res_min
      \<and> hd (anchor s) + int (min 30 (length s) + 99) * anchor_step s res_min \<le> ts_max)"

text \<open>The left edge of the first bin and the number of bins of a resampling.\<close>

definition bin_start :: "series \<Rightarrow> int \<Rightarrow> int" where
  "bin_start s w =
     (let first = Min (fst ` set s) in first - (first - (first - first mod day_ns)) mod w)"

definition bin_count :: "series \<Rightarrow> int \<Rightarrow> nat" where
  "bin_count s w =
     (let first = Min (fst ` set s); last = Max (fst ` set s); origin = first - first mod day_ns
      in nat ((last + (w - (last - origin) mod w) - bin_start s w) div w))"

text \<open>
  The bins fit into the timestamps: the width is a duration, and the midnight of the first
  reading's day and the last label are timestamps.
\<close>

definition bins_fit :: "series \<Rightarrow> int \<Rightarrow> bool" where
  "bins_fit s w =
     (w \<le> td_max
      \<and> ts_min \<le> Min (fst ` set s) - Min (fst ` set s) mod day_ns
      \<and> bin_start s w + int (bin_count s w) * w \<le> ts_max)"


text \<open>The rows whose timestamp parses, and their instants, in the order of the feed.\<close>

definition kept_rows :: "(string \<Rightarrow> int option) \<Rightarrow> feed list \<Rightarrow> (int \<times> feed) list" where
  "kept_rows to_datetime fs =
     map (\<lambda>r. (the (instant to_datetime r), r)) (filter (\<lambda>r. instant to_datetime r \<noteq> None) fs)"

definition instants :: "(string \<Rightarrow> int option) \<Rightarrow> feed list \<Rightarrow> int list" where
  "instants to_datetime fs = map fst (kept_rows to_datetime fs)"

subsection \<open>Inputs used in the examples\<close>

text \<open>Parsers that know the strings of the examples, and a zone without offset.\<close>

definition example_datetime :: "string \<Rightarrow> int option" where
  "example_datetime =
     map_of [(''1970-01-01T00:00:00Z'', 0),
             (''1970-01-01T00:01:00Z'', minute_ns),
             (''1970-01-01T00:02:00Z'', 2 * minute_ns)]"

definition example_numeric :: "string \<Rightarrow> real option" where
  "example_numeric = map_of [(''30'', 30), (''40'', 40), (''6.1'', 6.1)]"

definition utc :: timezone where
  "utc = \<lparr>tz_name = ''UTC'', wall_clock = (\<lambda>i. i)\<rparr>"

text \<open>
  A zone whose clocks are set back by an hour at minute 2 (the end of a daylight saving
  period): before it the wall clock is an hour ahead.
\<close>

definition fall_back_zone :: timezone where
  "fall_back_zone =
     \<lparr>tz_name = ''Fall/Back'',
      wall_clock = (\<lambda>i. if i < 2 * minute_ns then i + 60 * minute_ns else i)\<rparr>"

text \<open>Three readings one minute apart, the second without a value for field2.\<close>

definition three_readings :: "feed list" where
  "three_readings =
     [ [(''created_at'', Some ''1970-01-01T00:00:00Z''), (''field2'', Some ''30'')],
      [(''created_at'', Some ''1970-01-01T00:01:00Z''), (''field2'', None)],
      [(''created_at'', Some ''1970-01-01T00:02:00Z''), (''field2'', Some ''40'')] ]"

text \<open>A row with a bad timestamp, and rows with a bad field2 or field4 beside a good one.\<close>

definition damaged_readings :: "feed list" where
  "damaged_readings =
     [ [(''created_at'', Some ''yesterday''), (''field2'', Some ''30''), (''field4'', Some ''6.1'')],
      [(''created_at'', Some ''1970-01-01T00:02:00Z''), (''field2'', Some ''n/a''), (''field4'', Some ''6.1'')],
      [(''created_at'', Some ''1970-01-01T00:01:00Z''), (''field2'', Some ''40''), (''field4'', Some [])] ]"


text \<open>Two readings taken at the same instant.\<close>

definition same_instant_readings :: "feed list" where
  "same_instant_readings =
     [ [(''created_at'', Some ''1970-01-01T00:01:00Z''), (''field1'', Some ''30'')],
      [(''created_at'', Some ''1970-01-01T00:01:00Z''), (''field1'', Some ''40'')] ]"

text \<open>
  The scenario of the specification: five temperature readings ten minutes apart and the
  model \<open>m = 0.5\<close>, \<open>b = 20\<close> in the last one.
\<close>

definition scenario_frame :: dataframe where
  "scenario_frame =
     \<lparr>columns = [''created_at'', ''field1'', ''field5'', ''field6''],
      rows = [(0, [''field1'' \<mapsto> 21]),
              (10 * minute_ns, [''field1'' \<mapsto> 22]),
              (20 * minute_ns, [''field1'' \<mapsto> 23]),
              (30 * minute_ns, [''field1'' \<mapsto> 24]),
              (40 * minute_ns, [''field1'' \<mapsto> 25, ''field5'' \<mapsto> 0.5, ''field6'' \<mapsto> 20])]\<rparr>"

text \<open>
  A table whose model is older than its last reading: the slope came with the first
  reading, the intercept with the second, and the third has neither.
\<close>

definition split_model_frame :: dataframe where
  "split_model_frame =
     \<lparr>columns = [''created_at'', ''field1'', ''field5'', ''field6''],
      rows = [(0, [''field1'' \<mapsto> 21, ''field5'' \<mapsto> 2]),
              (10 * minute_ns, [''field1'' \<mapsto> 22, ''field6'' \<mapsto> 3]),
              (20 * minute_ns, [''field1'' \<mapsto> 23])]\<rparr>"

text \<open>The three readings as a table: 30, nothing and 40 in field2, one minute apart.\<close>

definition three_frame :: dataframe where
  "three_frame =
     \<lparr>columns = [''created_at'', ''field2''],
      rows = [(0, [''field2'' \<mapsto> 30]), (minute_ns, Map.empty),
              (2 * minute_ns, [''field2'' \<mapsto> 40])]\<rparr>"

text \<open>Two readings half an hour apart.\<close>

definition gap_frame :: dataframe where
  "gap_frame =
     \<lparr>columns = [''created_at'', ''field1''],
      rows = [(0, [''field1'' \<mapsto> 30]), (30 * minute_ns, [''field1'' \<mapsto> 40])]\<rparr>"

section \<open>Threshold evaluation\<close>

lemma limits_cases:
  "LIMITS_MAIN k = Some (lo, hi) \<Longrightarrow>
     (lo, hi) = (25, 50) \<or> (lo, hi) = (20, 30) \<or> (lo, hi) = (40, 60) \<or> (lo, hi) = (5.5, 6.8)"
  by (auto simp: LIMITS_MAIN_def split: if_splits)

lemma limits_ordered: "LIMITS_MAIN k = Some (lo, hi) \<Longrightarrow> lo \<le> hi"
  by (drule limits_cases) auto

text \<open>
  Claim C7. For every configured metric key the colouring follows the three-way
  classification of the specification: no data for a null value, out of range (red) for
  a value strictly outside the inclusive band, in range otherwise. The two bounds
  themselves are in range, and every value below \<open>low\<close> or above \<open>high\<close>, by whatever
  positive amount, is out of range.
\<close>

theorem threshold_classification:
  assumes "LIMITS_MAIN metric_key = Some (lo, hi)"
  shows "bg_for_main metric_key value = Inr (card_colour (classify_spec (lo, hi) value))
       \<and> (in_range value (lo, hi) \<longleftrightarrow> classify_spec (lo, hi) value = inRange)
       \<and> (value = None \<longleftrightarrow> classify_spec (lo, hi) value = noData)
       \<and> in_range (Some lo) (lo, hi) \<and> in_range (Some hi) (lo, hi)
       \<and> bg_for_main metric_key (Some lo) = Inr ''#3F4F61''
       \<and> bg_for_main metric_key (Some hi) = Inr ''#3F4F61''
       \<and> (\<forall>eps > 0. \<not> in_range (Some (lo - eps)) (lo, hi)
                  \<and> \<not> in_range (Some (hi + eps)) (lo, hi)
                  \<and> bg_for_main metric_key (Some (lo - eps)) = Inr ''red''
                  \<and> bg_for_main metric_key (Some (hi + eps)) = Inr ''red'')"
  using assms limits_ordered[OF assms]
  by (auto simp: bg_for_main_def in_range_def classify_spec_def card_colour_def
           split: option.splits)

text \<open>The scenario of the specification: 35 degrees of air temperature are out of range.\<close>

theorem threshold_classification_witness:
  "LIMITS_MAIN ''air_temp'' = Some (20, 30)
   \<and> classify_spec (20, 30) (Some 35) = outOfRange
   \<and> bg_for_main ''air_temp'' (Some 35) = Inr ''red''
   \<and> bg_for_main ''air_temp'' (Some 30) = Inr ''#3F4F61''
   \<and> bg_for_main ''air_temp'' None = Inr ''#3F4F61''"
proof -
  have h: "LIMITS_MAIN ''air_temp'' = Some (20, 30)"
    by (simp add: LIMITS_MAIN_def)
  have c: "classify_spec (20, 30) (Some 35) = outOfRange"
    by (simp add: classify_spec_def)
  have n: "classify_spec (20, 30) None = noData"
    by (simp add: classify_spec_def)
  from threshold_classification[OF h, of "Some 35"] threshold_classification[OF h, of None] h c n
  show ?thesis by (simp add: card_colour_def)
qed

section \<open>The request\<close>

text \<open>
  Claim C9. Every fetch uses one query mode. Without a date range the request carries
  \<open>results\<close>, the point cap it was given, and neither \<open>start\<close> nor \<open>end\<close>; with a date
  range it carries \<open>start\<close> at 00:00:00 of the first date and \<open>end\<close> at 23:59:59 of the
  last, and no \<open>results\<close>; the zone's name goes along in both. \<open>api_key\<close> is sent only
  for a key that is supplied and not empty. The fetch reads the service at this one
  request only.
\<close>

theorem request_modes:
  "request_params tz use_range start_date end_date max_points read_key ''timezone''
      = Some (PStr (tz_name tz))
   \<and> (\<not> use_range \<longrightarrow>
        request_params tz use_range start_date end_date max_points read_key ''results''
          = Some (PInt max_points)
      \<and> request_params tz use_range start_date end_date max_points read_key ''start'' = None
      \<and> request_params tz use_range start_date end_date max_points read_key ''end'' = None)
   \<and> (use_range \<longrightarrow>
        request_params tz use_range start_date end_date max_points read_key ''results'' = None
      \<and> request_params tz use_range start_date end_date max_points read_key ''start''
          = Some (PStr (date_str start_date @ '' 00:00:00''))
      \<and> request_params tz use_range start_date end_date max_points read_key ''end''
          = Some (PStr (date_str end_date @ '' 23:59:59'')))
   \<and> (request_params tz use_range start_date end_date max_points read_key ''api_key''
        = (case read_key of None \<Rightarrow> None | Some k \<Rightarrow> if k = [] then None else Some (PStr k)))
   \<and> fetch_thingspeak http to_datetime to_numeric channel_id tz use_range start_date end_date
        max_points read_key
      = fetch_thingspeak
          (\<lambda>c q. if c = channel_id
                     \<and> q = request_params tz use_range start_date end_date max_points read_key
                  then http c q else Inl HTTPError)
          to_datetime to_numeric channel_id tz use_range start_date end_date max_points read_key"
  by (simp add: request_params_def fetch_thingspeak_def Let_def split: option.splits)

theorem request_modes_witness:
  "request_params utc False \<lparr>year = 2024, month = 3, day = 5\<rparr> \<lparr>year = 2024, month = 3, day = 6\<rparr>
       MAX_POINTS None ''results'' = Some (PInt 8000)
   \<and> request_params utc False \<lparr>year = 2024, month = 3, day = 5\<rparr> \<lparr>year = 2024, month = 3, day = 6\<rparr>
       MAX_POINTS None ''start'' = None
   \<and> request_params utc False \<lparr>year = 2024, month = 3, day = 5\<rparr> \<lparr>year = 2024, month = 3, day = 6\<rparr>
       MAX_POINTS None ''api_key'' = None
   \<and> request_params utc True \<lparr>year = 2024, month = 3, day = 5\<rparr> \<lparr>year = 2024, month = 3, day = 6\<rparr>
       MAX_POINTS (Some ''K1'') ''start'' = Some (PStr ''2024-03-05 00:00:00'')
   \<and> request_params utc True \<lparr>year = 2024, month = 3, day = 5\<rparr> \<lparr>year = 2024, month = 3, day = 6\<rparr>
       MAX_POINTS (Some ''K1'') ''end'' = Some (PStr ''2024-03-06 23:59:59'')
   \<and> request_params utc True \<lparr>year = 2024, month = 3, day = 5\<rparr> \<lparr>year = 2024, month = 3, day = 6\<rparr>
       MAX_POINTS (Some ''K1'') ''results'' = None
   \<and> request_params utc True \<lparr>year = 2024, month = 3, day = 5\<rparr> \<lparr>year = 2024, month = 3, day = 6\<rparr>
       MAX_POINTS (Some ''K1'') ''api_key'' = Some (PStr ''K1'')"
  using request_modes[of utc False "\<lparr>year = 2024, month = 3, day = 5\<rparr>"
          "\<lparr>year = 2024, month = 3, day = 6\<rparr>" MAX_POINTS None]
        request_modes[of utc True "\<lparr>year = 2024, month = 3, day = 5\<rparr>"
          "\<lparr>year = 2024, month = 3, day = 6\<rparr>" MAX_POINTS "Some ''K1''"]
  by (simp add: MAX_POINTS_def date_str_def digit_def)


section \<open>Label resolution\<close>

lemma space_is_space [simp]: "is_space CHR '' ''"
  by (simp add: is_space_def)

lemma rstrip_Nil [simp]: "rstrip [] = []"
  by (simp add: rstrip_def)

lemma rstrip_all_space: "\<forall>c \<in> set s. is_space c \<Longrightarrow> rstrip s = []"
  by (simp add: rstrip_def)

lemma rstrip_append: "\<exists>c \<in> set ys. \<not> is_space c \<Longrightarrow> rstrip (xs @ ys) = xs @ rstrip ys"
  by (auto simp: rstrip_def dropWhile_append)

lemma rstrip_nonspace_last: "s \<noteq> [] \<Longrightarrow> \<not> is_space (last s) \<Longrightarrow> rstrip s = s"
  by (cases s rule: rev_cases) (auto simp: rstrip_def)

lemma rstrip_word: "w \<noteq> [] \<Longrightarrow> \<not> is_space (last w) \<Longrightarrow> rstrip (w @ t) = w @ rstrip t"
  by (cases w rule: rev_cases) (auto simp: rstrip_def dropWhile_append)

lemma strip_rstrip: "strip s = rstrip (dropWhile is_space s)"
  by (simp add: strip_def rstrip_def)

lemma collapse_nonspace_prefix:
  "\<forall>c \<in> set w. \<not> is_space c \<Longrightarrow> collapse_ws (w @ r) = w @ collapse_ws r"
  by (induction w) auto

lemma collapse_hd:
  "r \<noteq> [] \<Longrightarrow> \<not> is_space (hd r) \<Longrightarrow> collapse_ws r \<noteq> [] \<and> hd (collapse_ws r) = hd r"
  by (cases r) auto

lemma dropWhile_hd: "dropWhile P xs \<noteq> [] \<Longrightarrow> \<not> P (hd (dropWhile P xs))"
  by (metis hd_dropWhile)

text \<open>Collapsing commutes with stripping on the left.\<close>

lemma lstrip_collapse: "dropWhile is_space (collapse_ws s) = collapse_ws (dropWhile is_space s)"
proof (cases s)
  case Nil
  then show ?thesis by simp
next
  case (Cons c cs)
  show ?thesis
  proof (cases "is_space c")
    case False
    with Cons show ?thesis by simp
  next
    case True
    let ?r = "dropWhile is_space cs"
    have "dropWhile is_space (collapse_ws ?r) = collapse_ws ?r"
    proof (cases "?r = []")
      case True
      then have "collapse_ws ?r = []" by (simp only: collapse_ws.simps)
      then show ?thesis by (simp only: dropWhile.simps)
    next
      case False
      then have "\<not> is_space (hd ?r)" by (rule dropWhile_hd)
      with False have "collapse_ws ?r \<noteq> [] \<and> hd (collapse_ws ?r) = hd ?r"
        by (simp add: collapse_hd)
      with \<open>\<not> is_space (hd ?r)\<close> show ?thesis by (cases "collapse_ws ?r") auto
    qed
    with True Cons show ?thesis by simp
  qed
qed

lemma split_ws_lstrip: "split_ws (dropWhile is_space s) = split_ws s"
  by (subst split_ws.simps, subst (2) split_ws.simps) simp

lemma split_ws_Nil_iff: "split_ws s = [] \<longleftrightarrow> (\<forall>c \<in> set s. is_space c)"
proof -
  have "split_ws s = [] \<longleftrightarrow> dropWhile is_space s = []"
    by (subst split_ws.simps) (simp split: list.splits del: dropWhile_eq_Nil_conv)
  then show ?thesis by (simp add: dropWhile_eq_Nil_conv)
qed

lemma collapse_has_nonspace:
  "\<exists>c \<in> set r. \<not> is_space c \<Longrightarrow> \<exists>c \<in> set (collapse_ws r). \<not> is_space c"
proof (induction r rule: collapse_ws.induct)
  case 1
  then show ?case by simp
next
  case (2 c cs)
  show ?case
  proof (cases "is_space c")
    case False
    then show ?thesis by simp
  next
    case True
    with 2(3) have "\<exists>x \<in> set cs. \<not> is_space x" by auto
    then have "\<exists>x \<in> set (dropWhile is_space cs). \<not> is_space x"
      by (metis (mono_tags, lifting) dropWhile_eq_Nil_conv hd_dropWhile hd_in_set)
    with 2(1)[OF True] True show ?thesis by auto
  qed
qed

text \<open>
  On a string that does not start with whitespace, collapsing and stripping on the right
  leaves the words joined by single spaces. Induction on the length: a word is peeled off
  the front, and the rest is shorter.
\<close>

lemma rstrip_collapse_words:
  "s = [] \<or> \<not> is_space (hd s) \<Longrightarrow> rstrip (collapse_ws s) = join_sp (split_ws s)"
proof (induction s rule: length_induct)
  case (1 s)
  show ?case
  proof (cases s)
    case Nil
    then show ?thesis by (simp add: split_ws.simps)
  next
    case (Cons c cs)
    with 1(2) have nsp: "\<not> is_space c" by simp
    let ?w = "c # takeWhile (\<lambda>x. \<not> is_space x) cs"
    let ?rest = "dropWhile (\<lambda>x. \<not> is_space x) cs"
    let ?r = "dropWhile is_space ?rest"
    have s_eq: "s = ?w @ ?rest" using Cons by simp
    have w_ns: "\<forall>x \<in> set ?w. \<not> is_space x" using nsp by (auto dest: set_takeWhileD)
    have w_last: "\<not> is_space (last ?w)" using w_ns last_in_set[of ?w] by blast
    have split_s: "split_ws s = ?w # split_ws ?rest"
      using Cons nsp by (subst split_ws.simps) simp
    have coll_s: "collapse_ws s = ?w @ collapse_ws ?rest"
      by (subst s_eq) (rule collapse_nonspace_prefix[OF w_ns])
    show ?thesis
    proof (cases "?rest = []")
      case True
      then have "collapse_ws ?rest = []" by (simp only: collapse_ws.simps)
      with coll_s have "collapse_ws s = ?w" by (simp only: append_Nil2)
      with w_last have "rstrip (collapse_ws s) = ?w"
        by (simp only: rstrip_nonspace_last[of ?w] list.distinct not_False_eq_True)
      moreover have "split_ws ?rest = []"
        using True by (subst split_ws.simps) (simp only: dropWhile.simps list.case)
      ultimately show ?thesis using split_s by simp
    next
      case False
      then have sp: "is_space (hd ?rest)"
        using dropWhile_hd[of "\<lambda>x. \<not> is_space x" cs] by simp
      from False obtain d ds where rest: "?rest = d # ds" by (cases ?rest) auto
      with sp have coll_rest: "collapse_ws ?rest = CHR '' '' # collapse_ws ?r"
        by simp
      have len: "length ?r < length s"
      proof -
        have "length ?r \<le> length ?rest" by (rule length_dropWhile_le)
        also have "\<dots> \<le> length cs" by (rule length_dropWhile_le)
        finally show ?thesis using Cons by simp
      qed
      have hd_r: "?r = [] \<or> \<not> is_space (hd ?r)"
        using dropWhile_hd[of is_space ?rest] by blast
      from 1(1) len hd_r have IH: "rstrip (collapse_ws ?r) = join_sp (split_ws ?r)" by blast
      have split_rest: "split_ws ?rest = split_ws ?r" by (simp add: split_ws_lstrip)
      show ?thesis
      proof (cases "?r = []")
        case True
        then have "collapse_ws ?r = []" by (simp only: collapse_ws.simps)
        with coll_s coll_rest have "collapse_ws s = ?w @ [CHR '' '']" by simp
        with w_last have "rstrip (collapse_ws s) = ?w"
          using rstrip_word[of ?w "[CHR '' '']"] rstrip_all_space[of "[CHR '' '']"] by simp
        moreover have "split_ws ?r = []"
          using True by (subst split_ws.simps) (simp only: dropWhile.simps list.case)
        ultimately show ?thesis using split_s split_rest by simp
      next
        case False
        with hd_r have nr: "\<exists>x \<in> set ?r. \<not> is_space x" by (metis hd_in_set)
        then have ex: "\<exists>x \<in> set (collapse_ws ?r). \<not> is_space x"
          by (rule collapse_has_nonspace)
        then have ex': "\<exists>x \<in> set (CHR '' '' # collapse_ws ?r). \<not> is_space x" by auto
        have "rstrip (collapse_ws s) = ?w @ rstrip (CHR '' '' # collapse_ws ?r)"
          using coll_s coll_rest rstrip_append[OF ex', of ?w] by simp
        also have "rstrip (CHR '' '' # collapse_ws ?r) = CHR '' '' # rstrip (collapse_ws ?r)"
          using rstrip_append[OF ex, of "[CHR '' '']"] by simp
        finally have a: "rstrip (collapse_ws s) = ?w @ CHR '' '' # join_sp (split_ws ?r)"
          using IH by simp
        from nr have "split_ws ?r \<noteq> []" by (simp add: split_ws_Nil_iff)
        then obtain v vs where "split_ws ?r = v # vs" by (cases "split_ws ?r") auto
        then show ?thesis using a split_s split_rest by simp
      qed
    qed
  qed
qed

lemma clean_words: "clean s = join_sp (split_ws s)"
proof -
  have "strip (collapse_ws s) = rstrip (collapse_ws (dropWhile is_space s))"
    by (simp add: strip_rstrip lstrip_collapse)
  also have "\<dots> = join_sp (split_ws (dropWhile is_space s))"
    using dropWhile_hd[of is_space s] by (intro rstrip_collapse_words) blast
  finally have "strip (collapse_ws s) = join_sp (split_ws s)" by (simp add: split_ws_lstrip)
  moreover have "split_ws [] = []" by (simp add: split_ws.simps)
  ultimately show ?thesis by (simp add: clean_def)
qed

text \<open>The words hold no whitespace and are not empty.\<close>

lemma split_ws_words: "w \<in> set (split_ws s) \<Longrightarrow> w \<noteq> [] \<and> (\<forall>c \<in> set w. \<not> is_space c)"
proof (induction s rule: split_ws.induct)
  case (1 s)
  show ?case
  proof (cases "dropWhile is_space s")
    case Nil
    have "split_ws s = []"
      by (subst split_ws.simps) (simp only: Nil list.case)
    with 1(2) show ?thesis by simp
  next
    case (Cons c cs)
    have nsp: "\<not> is_space c"
      using dropWhile_hd[of is_space s] unfolding Cons by simp
    have "split_ws s = (c # takeWhile (\<lambda>x. \<not> is_space x) cs)
                         # split_ws (dropWhile (\<lambda>x. \<not> is_space x) cs)"
      by (subst split_ws.simps) (simp only: Cons list.case)
    with 1(2) have "w = c # takeWhile (\<lambda>x. \<not> is_space x) cs
        \<or> w \<in> set (split_ws (dropWhile (\<lambda>x. \<not> is_space x) cs))"
      by simp
    then show ?thesis
    proof
      assume "w = c # takeWhile (\<lambda>x. \<not> is_space x) cs"
      then show ?thesis using nsp by (auto dest: set_takeWhileD)
    next
      assume "w \<in> set (split_ws (dropWhile (\<lambda>x. \<not> is_space x) cs))"
      then show ?thesis by (rule 1(1)[OF Cons])
    qed
  qed
qed

lemma clean_Nil_iff: "clean s = [] \<longleftrightarrow> (\<forall>c \<in> set s. is_space c)"
proof -
  have "join_sp ws = [] \<longleftrightarrow> ws = []" if "\<forall>w \<in> set ws. w \<noteq> []" for ws :: "string list"
    using that by (cases ws rule: join_sp.cases) auto
  then have "join_sp (split_ws s) = [] \<longleftrightarrow> split_ws s = []"
    using split_ws_words by blast
  then show ?thesis by (simp add: clean_words split_ws_Nil_iff)
qed

lemma field_keys: "map field_key [1..<9] =
    [''field1'', ''field2'', ''field3'', ''field4'', ''field5'', ''field6'', ''field7'', ''field8'']"
  by (simp add: field_key_def digit_def upt_rec)

lemma fold_label_step_other:
  "field_key i \<notin> field_key ` set xs \<Longrightarrow> fold (label_step meta) xs m (field_key i) = m (field_key i)"
  by (induction xs arbitrary: m) (auto simp: label_step_def Let_def)

lemma fold_label_step:
  "i \<in> set xs \<Longrightarrow> inj_on field_key (set xs) \<Longrightarrow>
     fold (label_step meta) xs m (field_key i) =
       Some (if clean (get_or meta (field_key i) []) \<noteq> [] then clean (get_or meta (field_key i) [])
             else field_key i)"
proof (induction xs arbitrary: m)
  case Nil
  then show ?case by simp
next
  case (Cons x xs)
  have inj: "inj_on field_key (set xs)" using Cons.prems(2) by (simp add: inj_on_def)
  show ?case
  proof (cases "i \<in> set xs")
    case True
    then show ?thesis using Cons.IH[OF True inj] by simp
  next
    case False
    with Cons.prems(1) have ix: "i = x" by simp
    have "field_key i \<notin> field_key ` set xs"
    proof
      assume "field_key i \<in> field_key ` set xs"
      then obtain j where j: "j \<in> set xs" "field_key i = field_key j" by auto
      with Cons.prems(2) ix have "i = j" by (simp add: inj_on_def)
      with j(1) False show False by simp
    qed
    then have "fold (label_step meta) xs (label_step meta x m) (field_key i)
                 = label_step meta x m (field_key i)"
      by (rule fold_label_step_other)
    moreover have "label_step meta x m (field_key x) =
        Some (if clean (get_or meta (field_key x) []) \<noteq> [] then clean (get_or meta (field_key x) [])
              else field_key x)"
      by (simp add: label_step_def Let_def)
    ultimately show ?thesis unfolding ix by (simp only: fold_simps comp_def)
  qed
qed

lemma field_key_inj: "inj_on field_key (set [1..<9])"
proof -
  have "distinct (map field_key [1..<9])" by (simp only: field_keys) simp
  then show ?thesis by (simp only: distinct_map)
qed

lemma label_map_lookup:
  assumes "i \<in> {1..8}"
  shows "label_map_from_meta meta (field_key i) =
     Some (if clean (get_or meta (field_key i) []) \<noteq> [] then clean (get_or meta (field_key i) [])
           else field_key i)"
proof -
  have "i \<in> set [1..<9]" using assms by auto
  then show ?thesis unfolding label_map_from_meta_def
    by (rule fold_label_step[OF _ field_key_inj])
qed

text \<open>
  Claim C10. For every metadata mapping and every slot 1..8 the resolved name is the
  slot's label with its whitespace trimmed and collapsed, that is its words joined by
  single spaces, and the slot identifier when nothing is left: when the label is
  missing, empty or whitespace only.
\<close>

theorem label_resolution:
  assumes "i \<in> {1..8}"
  shows "label_map_from_meta meta (field_key i) =
           Some (if split_ws (get_or meta (field_key i) []) = [] then field_key i
                 else join_sp (split_ws (get_or meta (field_key i) [])))
       \<and> clean (get_or meta (field_key i) []) = join_sp (split_ws (get_or meta (field_key i) []))
       \<and> (split_ws (get_or meta (field_key i) []) = []
            \<longleftrightarrow> (\<forall>c \<in> set (get_or meta (field_key i) []). is_space c))
       \<and> (\<forall>w \<in> set (split_ws (get_or meta (field_key i) [])).
             w \<noteq> [] \<and> (\<forall>c \<in> set w. \<not> is_space c))
       \<and> (meta (field_key i) = None \<longrightarrow> label_map_from_meta meta (field_key i) = Some (field_key i))"
proof -
  let ?l = "get_or meta (field_key i) []"
  have e: "clean ?l = [] \<longleftrightarrow> split_ws ?l = []"
    by (simp add: clean_Nil_iff split_ws_Nil_iff)
  have 1: "label_map_from_meta meta (field_key i) =
           Some (if split_ws ?l = [] then field_key i else join_sp (split_ws ?l))"
    using label_map_lookup[OF assms, of meta] e by (simp add: clean_words)
  have 2: "meta (field_key i) = None \<longrightarrow> label_map_from_meta meta (field_key i) = Some (field_key i)"
    using 1 by (simp add: get_or_def split_ws.simps)
  show ?thesis using 1 2 split_ws_words[of _ ?l]
    by (simp add: clean_words split_ws_Nil_iff)
qed

text \<open>The scenario of the specification: an empty label for field4 resolves to \<open>field4\<close>.\<close>

theorem label_resolution_witness:
  "(4::nat) \<in> {1..8}
   \<and> label_map_from_meta [''field4'' \<mapsto> [], ''field2'' \<mapsto> ''  Soil   pH ''] ''field4''
       = Some ''field4''
   \<and> label_map_from_meta [''field4'' \<mapsto> [], ''field2'' \<mapsto> ''  Soil   pH ''] ''field2''
       = Some ''Soil pH''
   \<and> label_map_from_meta [''field4'' \<mapsto> [], ''field2'' \<mapsto> ''  Soil   pH ''] ''field7''
       = Some ''field7''"
proof -
  let ?meta = "[''field4'' \<mapsto> [], ''field2'' \<mapsto> ''  Soil   pH '']"
  have k: "field_key 4 = ''field4''" "field_key 2 = ''field2''" "field_key 7 = ''field7''"
    by (simp_all add: field_key_def digit_def)
  have h: "(4::nat) \<in> {1..8}" "(2::nat) \<in> {1..8}" "(7::nat) \<in> {1..8}" by simp_all
  have w: "split_ws [] = []" "split_ws ''  Soil   pH '' = [''Soil'', ''pH'']"
    by (simp_all add: split_ws.simps is_space_def)
  from label_resolution[OF h(1), of ?meta] label_resolution[OF h(2), of ?meta]
       label_resolution[OF h(3), of ?meta] h w
  show ?thesis by (simp add: k get_or_def)
qed


section \<open>Latest values and the trend model\<close>

lemma tail1_snoc [simp]: "tail1 (xs @ [x]) = [x]"
  by (simp add: tail1_def)

lemma tail1_Nil [simp]: "tail1 [] = []"
  by (simp add: tail1_def)

lemma tail1_last: "s \<noteq> [] \<Longrightarrow> tail1 s = [last s]"
  by (cases s rule: rev_cases) auto

lemma dropna_Nil_iff:
  "dropna (col df field) = [] \<longleftrightarrow> (\<forall>(ts, cells) \<in> set (rows df). cells field = None)"
  by (auto simp: dropna_def col_def filter_empty_conv)

lemma dropna_col_split:
  assumes "rows df = pre @ (ts, cells) # post" "cells field = Some v"
    "\<forall>(t, c) \<in> set post. c field = None"
  shows "dropna (col df field)
           = dropna (col \<lparr>columns = columns df, rows = pre\<rparr> field) @ [(ts, Some v)]"
proof -
  have "filter (\<lambda>(ts, v). v \<noteq> None) (map (\<lambda>(ts, cells). (ts, cells field)) post) = []"
    using assms(3) by (auto simp: filter_empty_conv)
  then show ?thesis using assms(1,2) by (simp add: dropna_def col_def)
qed

text \<open>
  Claim C5. \<open>latest_value\<close> returns a null value and a null timestamp exactly when the
  table is empty, the field is not a column, or every entry of the field is missing.
  Otherwise it returns the last entry, in the order of the index, that is not missing,
  with the timestamp of its row: the row after which the field is missing throughout.
\<close>

theorem latest_value_spec:
  "(latest_value df field = (None, None)
      \<longleftrightarrow> df_empty df \<or> field \<notin> set (columns df)
          \<or> (\<forall>(ts, cells) \<in> set (rows df). cells field = None))
   \<and> (\<forall>pre ts cells post v.
         field \<in> set (columns df) \<and> rows df = pre @ (ts, cells) # post
         \<and> cells field = Some v \<and> (\<forall>(t, c) \<in> set post. c field = None)
         \<longrightarrow> latest_value df field = (Some v, Some ts))
   \<and> (latest_value df field \<noteq> (None, None) \<longrightarrow>
         (\<exists>pre ts cells post v.
            rows df = pre @ (ts, cells) # post \<and> cells field = Some v
            \<and> (\<forall>(t, c) \<in> set post. c field = None)
            \<and> latest_value df field = (Some v, Some ts)))"
proof (intro conjI allI impI)
  show "latest_value df field = (None, None)
      \<longleftrightarrow> df_empty df \<or> field \<notin> set (columns df)
          \<or> (\<forall>(ts, cells) \<in> set (rows df). cells field = None)"
  proof (cases "df_empty df \<or> field \<notin> set (columns df)")
    case True
    then show ?thesis by (auto simp: latest_value_def)
  next
    case False
    show ?thesis
    proof (cases "dropna (col df field) = []")
      case True
      with False show ?thesis
        by (simp add: latest_value_def flip: dropna_Nil_iff)
    next
      case ne: False
      obtain ts v where l: "last (dropna (col df field)) = (ts, v)"
        by (cases "last (dropna (col df field))")
      with ne have "latest_value df field = (v, Some ts)"
        using False by (simp add: latest_value_def tail1_last)
      with False ne show ?thesis by (simp flip: dropna_Nil_iff)
    qed
  qed
next
  fix pre ts cells post v
  assume a: "field \<in> set (columns df) \<and> rows df = pre @ (ts, cells) # post
         \<and> cells field = Some v \<and> (\<forall>(t, c) \<in> set post. c field = None)"
  then have "dropna (col df field)
               = dropna (col \<lparr>columns = columns df, rows = pre\<rparr> field) @ [(ts, Some v)]"
    using dropna_col_split[of df pre ts cells post field v] by blast
  moreover have "\<not> df_empty df" using a by (auto simp: df_empty_def)
  ultimately show "latest_value df field = (Some v, Some ts)"
    using a by (simp add: latest_value_def)
next
  assume nn: "latest_value df field \<noteq> (None, None)"
  then have c: "\<not> df_empty df" "field \<in> set (columns df)"
    by (auto simp: latest_value_def split: if_splits)
  have "dropna (col df field) \<noteq> []"
    using nn c by (auto simp: latest_value_def)
  then have "\<exists>x \<in> set (rows df). snd x field \<noteq> None"
    by (force simp: dropna_Nil_iff)
  then obtain pre x post where sp: "rows df = pre @ x # post" "snd x field \<noteq> None"
      "\<forall>z \<in> set post. \<not> snd z field \<noteq> None"
    using split_list_last_prop[of "rows df" "\<lambda>x. snd x field \<noteq> None"] by blast
  obtain ts cells where x: "x = (ts, cells)" by (cases x)
  with sp(2) obtain v where v: "cells field = Some v" by auto
  have post: "\<forall>(t, c) \<in> set post. c field = None" using sp(3) by auto
  have "dropna (col df field)
          = dropna (col \<lparr>columns = columns df, rows = pre\<rparr> field) @ [(ts, Some v)]"
    using sp(1) x v post dropna_col_split[of df pre ts cells post field v] by blast
  then have "latest_value df field = (Some v, Some ts)"
    using c by (simp add: latest_value_def)
  with sp(1) x v post
  show "\<exists>pre ts cells post v.
            rows df = pre @ (ts, cells) # post \<and> cells field = Some v
            \<and> (\<forall>(t, c) \<in> set post. c field = None)
            \<and> latest_value df field = (Some v, Some ts)"
    by blast
qed

theorem latest_value_spec_witness:
  "latest_value gap_frame ''field1'' = (Some 40, Some (30 * minute_ns))
   \<and> latest_value gap_frame ''field3'' = (None, None)
   \<and> latest_value empty_frame ''field1'' = (None, None)"
proof -
  have r: "''field1'' \<in> set (columns gap_frame)
      \<and> rows gap_frame = [(0, [''field1'' \<mapsto> 30])] @ (30 * minute_ns, [''field1'' \<mapsto> 40]) # []
      \<and> [''field1'' \<mapsto> 40] ''field1'' = Some (40::real)
      \<and> (\<forall>(t, c) \<in> set ([] :: (int \<times> (string \<rightharpoonup> real)) list). c ''field1'' = None)"
    by (simp add: gap_frame_def)
  have a: "''field3'' \<notin> set (columns gap_frame)"
    by (simp add: gap_frame_def)
  have e: "df_empty empty_frame"
    by (simp add: df_empty_def empty_frame_def)
  from latest_value_spec[of gap_frame "''field1''", THEN conjunct2, THEN conjunct1, rule_format, OF r]
       latest_value_spec[of gap_frame "''field3''", THEN conjunct1]
       latest_value_spec[of empty_frame "''field1''", THEN conjunct1] a e
  show ?thesis by simp
qed

lemma last_param_latest:
  "\<not> df_empty df \<Longrightarrow> last_param df field = fst (latest_value df field)"
  by (auto simp: last_param_def latest_value_def Let_def tail1_last split: list.splits prod.splits)

lemma latest_value_empty: "df_empty df \<Longrightarrow> latest_value df field = (None, None)"
  by (simp add: latest_value_def)

lemma last_param_Some:
  assumes "field \<in> set (columns df)" "rows df = pre @ (ts, cells) # post"
    "cells field = Some v" "\<forall>(t, c) \<in> set post. c field = None"
  shows "last_param df field = Some v"
  using assms(1) dropna_col_split[OF assms(2,3,4)] by (simp add: last_param_def)

lemma last_dropna_value: "dropna s \<noteq> [] \<Longrightarrow> snd (last (dropna s)) \<noteq> None"
proof -
  assume "dropna s \<noteq> []"
  then have "last (dropna s) \<in> set (dropna s)" by (rule last_in_set)
  then show ?thesis by (auto simp: dropna_def)
qed

lemma last_param_None_iff:
  "last_param df field = None
     \<longleftrightarrow> field \<notin> set (columns df) \<or> (\<forall>(ts, cells) \<in> set (rows df). cells field = None)"
proof (cases "field \<in> set (columns df)")
  case False
  then show ?thesis by (simp add: last_param_def)
next
  case True
  show ?thesis
  proof (cases "dropna (col df field) = []")
    case e: True
    then show ?thesis using True by (simp add: last_param_def flip: dropna_Nil_iff)
  next
    case ne: False
    then have "snd (last (dropna (col df field))) \<noteq> None" by (rule last_dropna_value)
    then show ?thesis using True ne by (simp add: last_param_def flip: dropna_Nil_iff)
  qed
qed

lemma plot_no_trend:
  "fst (latest_lin_params df) = None \<or> snd (latest_lin_params df) = None \<Longrightarrow>
     plot_air_temp_with_trend df res \<noteq> Inr (Figure s (Some t))"
  by (auto simp: plot_air_temp_with_trend_def Let_def split: sum.splits option.splits prod.splits)

text \<open>
  Claim C2, as the code has it. The slope is the latest non-missing value of field5 and
  the intercept the latest non-missing value of field6 of the environmental table, each
  taken on its own: the value of the row after which that field is missing throughout,
  which need not be the most recent reading, nor the same row for both. Both are null
  exactly when the table is empty or one of the two fields is no column or has no
  non-missing value; and then the chart gets no trend trace. Each agrees with what
  \<open>latest_value\<close> reports for its field.
\<close>

theorem trend_model_source:
  "(latest_lin_params df = (None, None)
      \<longleftrightarrow> df_empty df
          \<or> (\<exists>f \<in> {''field5'', ''field6''}.
                f \<notin> set (columns df) \<or> (\<forall>(ts, cells) \<in> set (rows df). cells f = None)))
   \<and> (\<forall>pre5 t5 c5 post5 m pre6 t6 c6 post6 b.
         ''field5'' \<in> set (columns df) \<and> ''field6'' \<in> set (columns df)
         \<and> rows df = pre5 @ (t5, c5) # post5 \<and> c5 ''field5'' = Some m
         \<and> (\<forall>(t, c) \<in> set post5. c ''field5'' = None)
         \<and> rows df = pre6 @ (t6, c6) # post6 \<and> c6 ''field6'' = Some b
         \<and> (\<forall>(t, c) \<in> set post6. c ''field6'' = None)
         \<longrightarrow> latest_lin_params df = (Some m, Some b))
   \<and> (fst (latest_lin_params df) = None \<longleftrightarrow> snd (latest_lin_params df) = None)
   \<and> (latest_lin_params df = (None, None)
        \<longrightarrow> (\<forall>res s t. plot_air_temp_with_trend df res \<noteq> Inr (Figure s (Some t))))
   \<and> latest_lin_params df =
       (case (fst (latest_value df ''field5''), fst (latest_value df ''field6'')) of
          (Some m, Some b) \<Rightarrow> (Some m, Some b)
        | _ \<Rightarrow> (None, None))"
proof (intro conjI allI impI)
  show "latest_lin_params df = (None, None)
      \<longleftrightarrow> df_empty df
          \<or> (\<exists>f \<in> {''field5'', ''field6''}.
                f \<notin> set (columns df) \<or> (\<forall>(ts, cells) \<in> set (rows df). cells f = None))"
  proof (cases "df_empty df")
    case True
    then show ?thesis by (simp add: latest_lin_params_def)
  next
    case False
    have "latest_lin_params df = (None, None)
            \<longleftrightarrow> last_param df ''field5'' = None \<or> last_param df ''field6'' = None"
      using False by (auto simp: latest_lin_params_def Let_def)
    then show ?thesis using False by (simp add: last_param_None_iff)
  qed
next
  fix pre5 t5 c5 post5 m pre6 t6 c6 post6 b
  assume a: "''field5'' \<in> set (columns df) \<and> ''field6'' \<in> set (columns df)
         \<and> rows df = pre5 @ (t5, c5) # post5 \<and> c5 ''field5'' = Some m
         \<and> (\<forall>(t, c) \<in> set post5. c ''field5'' = None)
         \<and> rows df = pre6 @ (t6, c6) # post6 \<and> c6 ''field6'' = Some b
         \<and> (\<forall>(t, c) \<in> set post6. c ''field6'' = None)"
  have m: "last_param df ''field5'' = Some m"
    using a last_param_Some[of "''field5''" df pre5 t5 c5 post5 m] by blast
  have b: "last_param df ''field6'' = Some b"
    using a last_param_Some[of "''field6''" df pre6 t6 c6 post6 b] by blast
  have "\<not> df_empty df" using a by (auto simp: df_empty_def)
  then show "latest_lin_params df = (Some m, Some b)"
    using m b by (simp add: latest_lin_params_def)
next
  show "fst (latest_lin_params df) = None \<longleftrightarrow> snd (latest_lin_params df) = None"
    by (auto simp: latest_lin_params_def Let_def)
next
  assume "latest_lin_params df = (None, None)"
  then show "plot_air_temp_with_trend df res \<noteq> Inr (Figure s (Some t))" for res s t
    using plot_no_trend[of df res s t] by simp
next
  show "latest_lin_params df =
     (case (fst (latest_value df ''field5''), fst (latest_value df ''field6'')) of
        (Some m, Some b) \<Rightarrow> (Some m, Some b)
      | _ \<Rightarrow> (None, None))"
  proof (cases "df_empty df")
    case True
    then show ?thesis by (simp add: latest_lin_params_def latest_value_empty)
  next
    case False
    then show ?thesis
      by (auto simp: latest_lin_params_def last_param_latest Let_def split: option.splits)
  qed
qed

text \<open>
  The slope of the first reading and the intercept of the second make the model, and a
  table without the two fields has none.
\<close>

theorem trend_model_source_witness:
  "latest_lin_params split_model_frame = (Some 2, Some 3)
   \<and> latest_lin_params gap_frame = (None, None)
   \<and> (\<forall>res s t. plot_air_temp_with_trend gap_frame res \<noteq> Inr (Figure s (Some t)))"
proof -
  have r: "''field5'' \<in> set (columns split_model_frame)
       \<and> ''field6'' \<in> set (columns split_model_frame)
       \<and> rows split_model_frame
           = [] @ (0, [''field1'' \<mapsto> 21, ''field5'' \<mapsto> 2])
               # [(10 * minute_ns, [''field1'' \<mapsto> 22, ''field6'' \<mapsto> 3]),
                  (20 * minute_ns, [''field1'' \<mapsto> 23])]
       \<and> [''field1'' \<mapsto> 21, ''field5'' \<mapsto> 2] ''field5'' = Some (2::real)
       \<and> (\<forall>(t, c) \<in> set [(10 * minute_ns, [''field1'' \<mapsto> 22, ''field6'' \<mapsto> (3::real)]),
                            (20 * minute_ns, [''field1'' \<mapsto> 23])]. c ''field5'' = None)
       \<and> rows split_model_frame
           = [(0, [''field1'' \<mapsto> 21, ''field5'' \<mapsto> 2])]
               @ (10 * minute_ns, [''field1'' \<mapsto> 22, ''field6'' \<mapsto> 3])
               # [(20 * minute_ns, [''field1'' \<mapsto> 23])]
       \<and> [''field1'' \<mapsto> 22, ''field6'' \<mapsto> 3] ''field6'' = Some (3::real)
       \<and> (\<forall>(t, c) \<in> set [(20 * minute_ns, [''field1'' \<mapsto> (23::real)])]. c ''field6'' = None)"
    by (simp add: split_model_frame_def)
  have g: "\<not> df_empty gap_frame" "''field5'' \<notin> set (columns gap_frame)"
    by (simp_all add: gap_frame_def df_empty_def)
  have n: "latest_lin_params gap_frame = (None, None)"
    using trend_model_source[of gap_frame, THEN conjunct1] g by blast
  from trend_model_source[of split_model_frame, THEN conjunct2, THEN conjunct1, rule_format, OF r]
       trend_model_source[of gap_frame] n
  show ?thesis by simp
qed

text \<open>
  The most recent reading of this table has neither field: the slope is that of the
  first reading, the intercept that of the second.
\<close>

theorem trend_model_source_counterexample:
  "latest_lin_params split_model_frame = (Some 2, Some 3)
   \<and> snd (last (rows split_model_frame)) ''field5'' = None
   \<and> snd (last (rows split_model_frame)) ''field6'' = None
   \<and> snd (hd (rows split_model_frame)) ''field5'' = Some 2
   \<and> snd (hd (rows split_model_frame)) ''field6'' = None"
  by code_simp

section \<open>The trend projection\<close>

text \<open>What the chart gets when the model is present and the working series not empty.\<close>

lemma plot_trend_eq:
  assumes "resample_series df ''field1'' res = Inr rs" "dropna rs \<noteq> []"
    "latest_lin_params df = (Some m, Some b)"
  shows "plot_air_temp_with_trend df res =
     (if projection_fits (dropna rs) res
      then Inr (Figure (dropna rs)
             (Some (zip (map (\<lambda>k. hd (anchor (dropna rs)) + int k * anchor_step (dropna rs) res)
                          [0..<min 30 (length (dropna rs)) + 100])
                        (map (\<lambda>xi. m * real xi + b) [0..<min 30 (length (dropna rs)) + 100]))))
      else if anchor_step (dropna rs) res < - td_max \<or> td_max < anchor_step (dropna rs) res
           then Inl OutOfBoundsTimedelta
           else Inl OutOfBoundsDatetime)"
proof -
  have ne: "\<not> (df_empty df \<or> ''field1'' \<notin> set (columns df))"
    using assms(1,2) by (auto simp: resample_series_def dropna_def split: if_splits)
  have "anchor (dropna rs) \<noteq> []" using assms(2) by (auto simp: anchor_def min_def)
  then have hd: "anchor (dropna rs) ! 0 = hd (anchor (dropna rs))" by (simp add: hd_conv_nth)
  have "plot_air_temp_with_trend df res =
     (if anchor_step (dropna rs) res < - td_max \<or> td_max < anchor_step (dropna rs) res
      then Inl OutOfBoundsTimedelta
      else (case date_range (hd (anchor (dropna rs))) (min 30 (length (dropna rs)) + 100)
                   (anchor_step (dropna rs) res) of
              Inl e \<Rightarrow> Inl e
            | Inr idx_ext \<Rightarrow>
                Inr (Figure (dropna rs)
                  (Some (zip idx_ext
                     (map (\<lambda>xi. m * real xi + b) [0..<min 30 (length (dropna rs)) + 100]))))))"
  proof -
    have ne': "(df_empty df \<or> ''field1'' \<notin> set (columns df)) = False" using ne by simp
    have d': "(dropna rs \<noteq> []) = True" using assms(2) by simp
    have len: "length [0..<min 30 (length (dropna rs)) + 100] = min 30 (length (dropna rs)) + 100"
      by simp
    show ?thesis
      by (simp only: plot_air_temp_with_trend_def Let_def assms(1) assms(3) ne' d' sum.case
            prod.case option.case if_False if_True len anchor_def[symmetric]
            anchor_step_def[symmetric] hd)
  qed
  moreover define L where
    "L = hd (anchor (dropna rs)) + int (min 30 (length (dropna rs)) + 99) * anchor_step (dropna rs) res"
  have "date_range (hd (anchor (dropna rs))) (min 30 (length (dropna rs)) + 100)
            (anchor_step (dropna rs) res) =
          (if hd (anchor (dropna rs)) < ts_min \<or> ts_max < hd (anchor (dropna rs))
              \<or> L < ts_min \<or> ts_max < L
           then Inl OutOfBoundsDatetime
           else Inr (map (\<lambda>k. hd (anchor (dropna rs)) + int k * anchor_step (dropna rs) res)
                      [0..<min 30 (length (dropna rs)) + 100]))"
  proof -
    have e: "min 30 (length (dropna rs)) + 100 - 1 = min 30 (length (dropna rs)) + 99"
      by simp
    show ?thesis unfolding date_range_def Let_def e L_def by (rule refl)
  qed
  moreover have "projection_fits (dropna rs) res \<longleftrightarrow>
      - td_max \<le> anchor_step (dropna rs) res \<and> anchor_step (dropna rs) res \<le> td_max
      \<and> ts_min \<le> hd (anchor (dropna rs)) \<and> hd (anchor (dropna rs)) \<le> ts_max
      \<and> ts_min \<le> L \<and> L \<le> ts_max"
    unfolding projection_fits_def L_def by (rule refl)
  ultimately show ?thesis by auto
qed

text \<open>
  Claim C1, as the code has it. With the model present and a working series that is not
  empty, the projection has \<open>min 30 (length series) + 100\<close> points: the anchor window is
  the last 30 points or all there are. It has 130 points exactly when the working
  series has 30 or more. Its first timestamp is the first of the anchor window. This
  holds where the projected axis fits into the timestamps; where it does not, there is
  no projection: the chart raises.
\<close>

theorem trend_length:
  assumes "resample_series df ''field1'' res = Inr rs" "dropna rs \<noteq> []"
    "latest_lin_params df = (Some m, Some b)"
  shows "(projection_fits (dropna rs) res \<longrightarrow>
           (\<exists>tr. plot_air_temp_with_trend df res = Inr (Figure (dropna rs) (Some tr))
              \<and> length tr = min 30 (length (dropna rs)) + 100
              \<and> (length tr = 130 \<longleftrightarrow> 30 \<le> length (dropna rs))
              \<and> fst (hd tr) = hd (anchor (dropna rs))))
       \<and> (\<not> projection_fits (dropna rs) res \<longrightarrow>
           plot_air_temp_with_trend df res \<in> {Inl OutOfBoundsTimedelta, Inl OutOfBoundsDatetime})"
proof -
  let ?n = "min 30 (length (dropna rs)) + 100"
  have "hd (zip (map f [0..<?n]) (map g [0..<?n])) = (f 0, g 0)"
    for f :: "nat \<Rightarrow> int" and g :: "nat \<Rightarrow> real"
    by (simp add: hd_zip hd_map upt_conv_Cons)
  then show ?thesis
    unfolding plot_trend_eq[OF assms] by auto
qed

lemma scenario_resampled:
  "resample_series scenario_frame ''field1'' 10 =
     Inr [(600000000000, Some 21), (1200000000000, Some 22), (1800000000000, Some 23),
          (2400000000000, Some 24), (3000000000000, Some 25)]"
  by code_simp

lemma scenario_model: "latest_lin_params scenario_frame = (Some (1 / 2), Some 20)"
  by code_simp

lemma scenario_fits:
  "projection_fits (dropna [(600000000000, Some 21), (1200000000000, Some 22),
       (1800000000000, Some 23), (2400000000000, Some 24), (3000000000000, Some 25)]) 10"
  by (simp add: projection_fits_def dropna_def anchor_def anchor_step_def ts_min_def ts_max_def
        td_max_def)

text \<open>With buckets of 2000000 minutes the one bucket's projection does not fit.\<close>

lemma scenario_wide_resampled:
  "resample_series scenario_frame ''field1'' 2000000 = Inr [(120000000000000000, Some 23)]"
  by code_simp

lemma scenario_wide_unfit:
  "\<not> projection_fits (dropna [(120000000000000000, Some 23)]) 2000000"
  by (simp add: projection_fits_def dropna_def anchor_def anchor_step_def ts_max_def
        minute_ns_def)

theorem trend_length_witness:
  "(\<exists>tr. plot_air_temp_with_trend scenario_frame 10 =
          Inr (Figure [(600000000000, Some 21), (1200000000000, Some 22),
                       (1800000000000, Some 23), (2400000000000, Some 24),
                       (3000000000000, Some 25)] (Some tr))
        \<and> length tr = 105 \<and> fst (hd tr) = 600000000000)
   \<and> plot_air_temp_with_trend scenario_frame 2000000
        \<in> {Inl OutOfBoundsTimedelta, Inl OutOfBoundsDatetime}"
proof -
  let ?rs = "[(600000000000, Some 21), (1200000000000, Some 22), (1800000000000, Some 23),
              (2400000000000, Some 24), (3000000000000, Some (25::real))] :: series"
  have d: "dropna ?rs \<noteq> []" by (simp add: dropna_def)
  have d': "dropna [(120000000000000000, Some (23::real))] \<noteq> []" by (simp add: dropna_def)
  have 1: "\<exists>tr. plot_air_temp_with_trend scenario_frame 10 = Inr (Figure ?rs (Some tr))
        \<and> length tr = 105 \<and> fst (hd tr) = 600000000000"
    using trend_length[OF scenario_resampled d scenario_model] scenario_fits
    by (auto simp: dropna_def anchor_def)
  have 2: "plot_air_temp_with_trend scenario_frame 2000000
        \<in> {Inl OutOfBoundsTimedelta, Inl OutOfBoundsDatetime}"
    using trend_length[OF scenario_wide_resampled d' scenario_model] scenario_wide_unfit
    by blast
  from 1 2 show ?thesis by blast
qed

text \<open>
  The scenario of the specification, five points in the anchor window: the projection
  has 105 points, not 130.
\<close>

theorem trend_length_counterexample:
  "(case plot_air_temp_with_trend scenario_frame 10 of
      Inr (Figure s (Some tr)) \<Rightarrow> Some (length s, length tr)
    | _ \<Rightarrow> None) = Some (5, 105)"
  by code_simp

text \<open>
  A bucket width of 2000000 minutes, which the sidebar accepts: the one bucket's
  projection would end beyond the last timestamp, and the chart raises.
\<close>

lemma trend_out_of_range:
  "plot_air_temp_with_trend scenario_frame 2000000 = Inl OutOfBoundsDatetime"
  by code_simp

text \<open>
  Claim C6. The projected point of step index \<open>x\<close> has the value \<open>m * x + b\<close>, so the
  first value is \<open>b\<close>, and the timestamp of the anchor window's first point plus \<open>x\<close>
  steps; the step is the gap between the first two timestamps of the anchor window, and
  the bucket width when the window has a single point. This holds where the projected
  axis fits into the timestamps; where it does not, the chart raises and there is no
  projected point.
\<close>

theorem trend_points:
  assumes "resample_series df ''field1'' res = Inr rs" "dropna rs \<noteq> []"
    "latest_lin_params df = (Some m, Some b)"
  shows "(projection_fits (dropna rs) res \<longrightarrow>
           (\<exists>tr. plot_air_temp_with_trend df res = Inr (Figure (dropna rs) (Some tr))
              \<and> (\<forall>x < length tr.
                    tr ! x = (hd (anchor (dropna rs)) + int x * anchor_step (dropna rs) res,
                              m * real x + b))
              \<and> snd (tr ! 0) = b))
       \<and> (\<not> projection_fits (dropna rs) res \<longrightarrow>
           plot_air_temp_with_trend df res \<in> {Inl OutOfBoundsTimedelta, Inl OutOfBoundsDatetime})
       \<and> anchor_step (dropna rs) res =
           (if length (anchor (dropna rs)) < 2 then res * minute_ns
            else anchor (dropna rs) ! 1 - anchor (dropna rs) ! 0)"
  unfolding plot_trend_eq[OF assms] by (auto simp: anchor_step_def)

theorem trend_points_witness:
  "(\<exists>tr. plot_air_temp_with_trend scenario_frame 10 =
          Inr (Figure [(600000000000, Some 21), (1200000000000, Some 22),
                       (1800000000000, Some 23), (2400000000000, Some 24),
                       (3000000000000, Some 25)] (Some tr))
        \<and> (\<forall>x < length tr. tr ! x = (600000000000 + int x * 600000000000, 1 / 2 * real x + 20))
        \<and> snd (tr ! 0) = 20)
   \<and> plot_air_temp_with_trend scenario_frame 2000000
        \<in> {Inl OutOfBoundsTimedelta, Inl OutOfBoundsDatetime}"
proof -
  let ?rs = "[(600000000000, Some 21), (1200000000000, Some 22), (1800000000000, Some 23),
              (2400000000000, Some 24), (3000000000000, Some (25::real))] :: series"
  have d: "dropna ?rs \<noteq> []" by (simp add: dropna_def)
  have d': "dropna [(120000000000000000, Some (23::real))] \<noteq> []" by (simp add: dropna_def)
  have 1: "\<exists>tr. plot_air_temp_with_trend scenario_frame 10 = Inr (Figure ?rs (Some tr))
        \<and> (\<forall>x < length tr. tr ! x = (600000000000 + int x * 600000000000, 1 / 2 * real x + 20))
        \<and> snd (tr ! 0) = 20"
    using trend_points[OF scenario_resampled d scenario_model] scenario_fits
    by (auto simp: dropna_def anchor_def anchor_step_def)
  have 2: "plot_air_temp_with_trend scenario_frame 2000000
        \<in> {Inl OutOfBoundsTimedelta, Inl OutOfBoundsDatetime}"
    using trend_points[OF scenario_wide_resampled d' scenario_model] scenario_wide_unfit
    by blast
  from 1 2 show ?thesis by blast
qed

section \<open>Resampling\<close>

lemma bucket_values_in_bucket: "bucket_values s lo hi = in_bucket s lo hi"
  by (induction s) (auto simp: bucket_values_def in_bucket_def split: option.splits if_splits)

lemma fold_min_Min: "s \<noteq> [] \<Longrightarrow> fold min (map fst s) (fst (hd s)) = Min (fst ` set s)"
proof (cases s)
  case Nil
  then show "s \<noteq> [] \<Longrightarrow> ?thesis" by simp
next
  case (Cons a s')
  have "fold min (map fst s') (fst a) = Min (set (fst a # map fst s'))"
    by (simp only: Min.set_eq_fold)
  then show ?thesis using Cons by simp
qed

lemma fold_max_Max: "s \<noteq> [] \<Longrightarrow> fold max (map fst s) (fst (hd s)) = Max (fst ` set s)"
proof (cases s)
  case Nil
  then show "s \<noteq> [] \<Longrightarrow> ?thesis" by simp
next
  case (Cons a s')
  have "fold max (map fst s') (fst a) = Max (set (fst a # map fst s'))"
    by (simp only: Max.set_eq_fold)
  then show ?thesis using Cons by simp
qed

text \<open>The bins end where the bin of the largest timestamp ends.\<close>

lemma bin_span:
  assumes "s \<noteq> []" "0 < w"
  shows "bin_start s w + int (bin_count s w) * w =
           Max (fst ` set s)
           + (w - (Max (fst ` set s) - (Min (fst ` set s) - Min (fst ` set s) mod day_ns)) mod w)"
proof -
  let ?first = "Min (fst ` set s)" and ?last = "Max (fst ` set s)"
  let ?origin = "?first - ?first mod day_ns"
  let ?stop = "?last + (w - (?last - ?origin) mod w)"
  have fin: "finite (fst ` set s)" by simp
  have nes: "fst ` set s \<noteq> {}" using assms(1) by simp
  obtain t0 where t0: "t0 \<in> fst ` set s" using assms(1) by (cases s) auto
  have "?first \<le> t0" using fin t0 by (rule Min_le)
  moreover have "t0 \<le> ?last" using fin t0 by (rule Max_ge)
  ultimately have fl: "?first \<le> ?last" by linarith
  have m1: "0 \<le> (?first - ?origin) mod w" "(?first - ?origin) mod w < w"
    using assms(2) by simp_all
  have m2: "0 \<le> (?last - ?origin) mod w" "(?last - ?origin) mod w < w"
    using assms(2) by simp_all
  have st: "bin_start s w = ?first - (?first - ?origin) mod w"
    by (simp add: bin_start_def Let_def)
  have "(?first - ?origin) - (?first - ?origin) mod w = w * ((?first - ?origin) div w)"
    by (rule minus_mod_eq_mult_div)
  then have a: "bin_start s w - ?origin = w * ((?first - ?origin) div w)"
    unfolding st by linarith
  have "(?last - ?origin) - (?last - ?origin) mod w = w * ((?last - ?origin) div w)"
    by (rule minus_mod_eq_mult_div)
  then have b: "?stop - ?origin = w * ((?last - ?origin) div w) + w"
    by linarith
  have "?stop - bin_start s w = w * ((?last - ?origin) div w + 1 - (?first - ?origin) div w)"
    using a b by (simp add: algebra_simps)
  then have dv: "(?stop - bin_start s w) div w * w = ?stop - bin_start s w"
    using assms(2) by simp
  have pos: "0 \<le> ?stop - bin_start s w" using st m1 m2 fl by linarith
  then have "0 \<le> (?stop - bin_start s w) div w"
    using assms(2) by (simp add: pos_imp_zdiv_nonneg_iff)
  then have "int (bin_count s w) * w = ?stop - bin_start s w"
    using dv by (simp add: bin_count_def Let_def)
  then have "bin_start s w + int (bin_count s w) * w = ?stop"
    by (simp only: add_diff_eq diff_add_cancel add.commute[of "bin_start s w"])
  then show ?thesis .
qed

text \<open>The resampled series, bin by bin, where the bins fit into the timestamps.\<close>

lemma resample_mean_bins:
  assumes "s \<noteq> []" "0 < w"
  shows "resample_mean s w =
     (if bins_fit s w
      then Inr (map (\<lambda>k. (bin_start s w + int k * w + w,
                 mean (in_bucket s (bin_start s w + int k * w) (bin_start s w + int k * w + w))))
             [0..<bin_count s w])
      else if td_max < w then Inl OutOfBoundsTimedelta else Inl OutOfBoundsDatetime)"
proof -
  have "bins_fit s w \<longleftrightarrow>
      \<not> td_max < w
      \<and> \<not> (Min (fst ` set s) - Min (fst ` set s) mod day_ns < ts_min
           \<or> ts_max < Max (fst ` set s)
                + (w - (Max (fst ` set s) - (Min (fst ` set s) - Min (fst ` set s) mod day_ns)) mod w))"
    unfolding bins_fit_def bin_span[OF assms] by auto
  then show ?thesis
    using assms(1)
    by (simp add: resample_mean_def fold_min_Min fold_max_Max bin_start_def bin_count_def Let_def
          bucket_values_in_bucket)
qed

text \<open>The bins reach from below the smallest timestamp to above the largest.\<close>

lemma bins_cover:
  assumes "s \<noteq> []" "0 < w" "t \<in> fst ` set s"
  shows "bin_start s w \<le> t \<and> t < bin_start s w + int (bin_count s w) * w"
proof -
  let ?first = "Min (fst ` set s)" and ?last = "Max (fst ` set s)"
  let ?origin = "?first - ?first mod day_ns"
  have fin: "finite (fst ` set s)" by simp
  have lo: "?first \<le> t" using fin assms(3) by (rule Min_le)
  have hi: "t \<le> ?last" using fin assms(3) by (rule Max_ge)
  have m1: "0 \<le> (?first - ?origin) mod w" using assms(2) by simp
  have m2: "(?last - ?origin) mod w < w" using assms(2) by simp
  have st: "bin_start s w = ?first - (?first - ?origin) mod w"
    by (simp add: bin_start_def Let_def)
  show ?thesis unfolding bin_span[OF assms(1,2)] using st m1 m2 lo hi by linarith
qed

text \<open>The first bin does not start before the midnight of the first reading's day.\<close>

lemma bin_start_ge_midnight:
  assumes "0 < w"
  shows "Min (fst ` set s) - Min (fst ` set s) mod day_ns \<le> bin_start s w"
proof -
  let ?first = "Min (fst ` set s)"
  have "0 \<le> ?first mod day_ns" by (simp add: day_ns_def)
  then have "(?first - (?first - ?first mod day_ns)) mod w \<le> ?first - (?first - ?first mod day_ns)"
    by (intro zmod_le_nonneg_dividend) simp
  then show ?thesis by (simp add: bin_start_def Let_def)
qed

lemma bin_of:
  assumes "0 < (w::int)" "b \<le> t" "t < b + int n * w"
  shows "\<exists>k < n. b + int k * w \<le> t \<and> t < b + int k * w + w"
proof -
  let ?k = "nat ((t - b) div w)"
  have nn: "0 \<le> (t - b) div w" using assms by (simp add: pos_imp_zdiv_nonneg_iff)
  have eq: "(t - b) div w * w + (t - b) mod w = t - b" by simp
  have md: "0 \<le> (t - b) mod w" "(t - b) mod w < w" using assms(1) by simp_all
  have "(t - b) div w < int n"
  proof (rule ccontr)
    assume "\<not> (t - b) div w < int n"
    then have "int n \<le> (t - b) div w" by simp
    then have "int n * w \<le> (t - b) div w * w" using assms(1) by (simp add: mult_right_mono)
    with eq md assms(3) show False by linarith
  qed
  then have "?k < n" using nn by linarith
  moreover have "int ?k = (t - b) div w" using nn by simp
  moreover have "b + (t - b) div w * w \<le> t \<and> t < b + (t - b) div w * w + w"
    using eq md by linarith
  ultimately show ?thesis by (intro exI[of _ ?k]) simp
qed

lemma col_nonempty: "\<not> df_empty df \<Longrightarrow> col df field \<noteq> []"
  by (simp add: df_empty_def col_def)

text \<open>
  Claim C4, as the code has it. For a table that is not empty, a field among its
  columns and a positive bucket width, the resampled series is a run of buckets without
  a gap, one width apart, each labelled with its closing boundary and holding the
  timestamps from the label minus the width up to, not including, the label. A bucket's
  value is the arithmetic mean of the non-missing input values whose timestamp falls
  within it; a bucket without such a value is missing (never 0), and it stays in the
  series. Every input timestamp falls within one of the buckets, and every label is a
  timestamp. This holds where the bins fit into the timestamps; where they do not,
  resampling raises.
\<close>

theorem resample_buckets:
  assumes "0 < minutes" "\<not> df_empty df" "field \<in> set (columns df)"
  shows "(bins_fit (col df field) (minutes * minute_ns) \<longrightarrow>
     (\<exists>rs. resample_series df field minutes = Inr rs
       \<and> rs \<noteq> []
       \<and> (\<forall>(label, v) \<in> set rs.
             v = mean (in_bucket (col df field) (label - minutes * minute_ns) label))
       \<and> (\<forall>(label, v) \<in> set rs.
             v = None \<longleftrightarrow> in_bucket (col df field) (label - minutes * minute_ns) label = [])
       \<and> map fst rs = map (\<lambda>k. fst (hd rs) + int k * (minutes * minute_ns)) [0..<length rs]
       \<and> (\<forall>(t, x) \<in> set (col df field).
             \<exists>(label, v) \<in> set rs. label - minutes * minute_ns \<le> t \<and> t < label)
       \<and> (\<forall>(label, v) \<in> set rs. ts_min \<le> label \<and> label \<le> ts_max)))
   \<and> (\<not> bins_fit (col df field) (minutes * minute_ns) \<longrightarrow>
        resample_series df field minutes \<in> {Inl OutOfBoundsTimedelta, Inl OutOfBoundsDatetime})"
proof (intro conjI impI)
  let ?s = "col df field" and ?w = "minutes * minute_ns"
  let ?b = "bin_start ?s ?w" and ?n = "bin_count ?s ?w"
  let ?rs = "map (\<lambda>k. (?b + int k * ?w + ?w,
                mean (in_bucket ?s (?b + int k * ?w) (?b + int k * ?w + ?w)))) [0..<?n]"
  have w: "0 < ?w" using assms(1) by (simp add: minute_ns_def)
  have ne: "?s \<noteq> []" using assms(2) by (rule col_nonempty)
  have rm: "resample_series df field minutes = resample_mean ?s ?w"
    using assms by (simp add: resample_series_def)
  {
    assume "\<not> bins_fit ?s ?w"
    then show "resample_series df field minutes \<in> {Inl OutOfBoundsTimedelta, Inl OutOfBoundsDatetime}"
      unfolding rm resample_mean_bins[OF ne w] by simp
  }
  assume fit: "bins_fit ?s ?w"
  have res: "resample_series df field minutes = Inr ?rs"
    unfolding rm resample_mean_bins[OF ne w] using fit by simp
  obtain t0 where t0: "t0 \<in> fst ` set ?s" using ne by (cases ?s) auto
  from bins_cover[OF ne w t0] have "0 < int ?n * ?w" by linarith
  then have npos: "0 < ?n" using w by (simp add: zero_less_mult_iff)
  then have rne: "?rs \<noteq> []" by simp
  have c1: "\<forall>(label, v) \<in> set ?rs. v = mean (in_bucket ?s (label - ?w) label)"
    by auto
  have c2: "\<forall>(label, v) \<in> set ?rs. v = None \<longleftrightarrow> in_bucket ?s (label - ?w) label = []"
    by (auto simp: mean_def)
  have hd: "fst (hd ?rs) = ?b + ?w" using npos by (simp add: hd_map upt_conv_Cons)
  have c3: "map fst ?rs = map (\<lambda>k. fst (hd ?rs) + int k * ?w) [0..<length ?rs]"
    unfolding hd by (simp add: comp_def algebra_simps)
  have c4: "\<forall>(t, x) \<in> set ?s. \<exists>(label, v) \<in> set ?rs. label - ?w \<le> t \<and> t < label"
  proof (clarify)
    fix t x
    assume "(t, x) \<in> set ?s"
    then have "t \<in> fst ` set ?s" by force
    from bins_cover[OF ne w this] bin_of[OF w]
    obtain k where k: "k < ?n" "?b + int k * ?w \<le> t" "t < ?b + int k * ?w + ?w" by blast
    then show "\<exists>(label, v) \<in> set ?rs. label - ?w \<le> t \<and> t < label"
      by (intro bexI[of _ "(?b + int k * ?w + ?w,
              mean (in_bucket ?s (?b + int k * ?w) (?b + int k * ?w + ?w)))"]) auto
  qed
  have c5: "\<forall>(label, v) \<in> set ?rs. ts_min \<le> label \<and> label \<le> ts_max"
  proof (clarify)
    fix label v
    assume "(label, v) \<in> set ?rs"
    then obtain k where k: "k < ?n" "label = ?b + int k * ?w + ?w" by auto
    have lo: "ts_min \<le> ?b"
      using fit bin_start_ge_midnight[OF w, of ?s] by (simp add: bins_fit_def)
    have hi: "?b + int ?n * ?w \<le> ts_max" using fit by (simp add: bins_fit_def)
    have "int k + 1 \<le> int ?n" using k(1) by simp
    then have "(int k + 1) * ?w \<le> int ?n * ?w" using w by (simp only: mult_right_mono less_imp_le)
    then have "int k * ?w + ?w \<le> int ?n * ?w" by (simp add: algebra_simps)
    moreover have "0 \<le> int k * ?w" using w by simp
    ultimately show "ts_min \<le> label \<and> label \<le> ts_max" using lo hi k(2) w by linarith
  qed
  show "\<exists>rs. resample_series df field minutes = Inr rs
       \<and> rs \<noteq> []
       \<and> (\<forall>(label, v) \<in> set rs.
             v = mean (in_bucket (col df field) (label - minutes * minute_ns) label))
       \<and> (\<forall>(label, v) \<in> set rs.
             v = None \<longleftrightarrow> in_bucket (col df field) (label - minutes * minute_ns) label = [])
       \<and> map fst rs = map (\<lambda>k. fst (hd rs) + int k * (minutes * minute_ns)) [0..<length rs]
       \<and> (\<forall>(t, x) \<in> set (col df field).
             \<exists>(label, v) \<in> set rs. label - minutes * minute_ns \<le> t \<and> t < label)
       \<and> (\<forall>(label, v) \<in> set rs. ts_min \<le> label \<and> label \<le> ts_max)"
    using res rne c1 c2 c3 c4 c5 by blast
qed

text \<open>
  The scenario of the specification: 30, nothing and 40 one minute apart give, with a
  width of two minutes, one bucket with the mean 30 and one with the mean 40.
\<close>

lemma three_resampled:
  "resample_series three_frame ''field2'' 2 =
     Inr [(120000000000, Some 30), (240000000000, Some 40)]"
  by code_simp

lemma three_fits: "bins_fit (col three_frame ''field2'') (2 * minute_ns)"
  by code_simp

theorem resample_buckets_witness:
  "(0::int) < 2 \<and> \<not> df_empty three_frame \<and> ''field2'' \<in> set (columns three_frame)
   \<and> bins_fit (col three_frame ''field2'') (2 * minute_ns)
   \<and> resample_series three_frame ''field2'' 2
        = Inr [(120000000000, Some 30), (240000000000, Some 40)]
   \<and> Some 30 = mean (in_bucket (col three_frame ''field2'') (120000000000 - 2 * minute_ns)
                      120000000000)
   \<and> Some 40 = mean (in_bucket (col three_frame ''field2'') (240000000000 - 2 * minute_ns)
                      240000000000)
   \<and> resample_series gap_frame ''field1'' 200000000
        \<in> {Inl OutOfBoundsTimedelta, Inl OutOfBoundsDatetime}"
proof -
  have h: "(0::int) < 2" "\<not> df_empty three_frame" "''field2'' \<in> set (columns three_frame)"
    by (simp_all add: three_frame_def df_empty_def)
  have g: "(0::int) < 200000000" "\<not> df_empty gap_frame" "''field1'' \<in> set (columns gap_frame)"
    by (simp_all add: gap_frame_def df_empty_def)
  have u: "\<not> bins_fit (col gap_frame ''field1'') (200000000 * minute_ns)"
    by (simp add: bins_fit_def td_max_def minute_ns_def)
  have 2: "resample_series gap_frame ''field1'' 200000000
        \<in> {Inl OutOfBoundsTimedelta, Inl OutOfBoundsDatetime}"
    using resample_buckets[OF g] u by blast
  from resample_buckets[OF h] three_resampled three_fits h 2
  show ?thesis by simp
qed

text \<open>
  Two readings half an hour apart and a width of ten minutes: the buckets that close at
  minute 20 and at minute 30 have no reading, and both are in the resampled series.
\<close>

theorem resample_buckets_counterexample:
  "resample_series gap_frame ''field1'' 10 =
     Inr [(600000000000, Some 30), (1200000000000, None), (1800000000000, None),
          (2400000000000, Some 40)]"
  by code_simp

text \<open>
  A width of 200000000 minutes is no duration pandas can hold: resampling raises.
\<close>

lemma resample_width_out_of_range:
  "resample_series gap_frame ''field1'' 200000000 = Inl OutOfBoundsTimedelta"
  by code_simp

section \<open>Normalization\<close>

lemma set_fold_add_col: "set (fold add_col ks acc) = set ks \<union> set acc"
  by (induction ks arbitrary: acc) (auto simp: add_col_def)

lemma set_frame_columns: "set (frame_columns fs) = (\<Union>r \<in> set fs. fst ` set r)"
  by (simp add: frame_columns_def set_fold_add_col)

lemma no_columns_no_instant:
  assumes "frame_columns fs = []" "r \<in> set fs"
  shows "instant td r = None"
proof -
  have "fst ` set r \<subseteq> (\<Union>r \<in> set fs. fst ` set r)"
    using assms(2) by (rule UN_upper)
  also have "\<dots> = set (frame_columns fs)" by (simp only: set_frame_columns)
  also have "\<dots> = {}" by (simp only: assms(1) list.set)
  finally have "set r = {}" by (simp only: subset_empty image_is_empty)
  then have "r = []" by (simp only: set_empty)
  then show ?thesis by (simp add: instant_def raw_def)
qed

lemma kept_filter:
  "concat (map (\<lambda>(t, r). case t of None \<Rightarrow> [] | Some i \<Rightarrow> [(i, r)]) (map (\<lambda>r. (instant td r, r)) fs))
     = kept_rows td fs"
  by (induction fs) (auto simp: kept_rows_def split: option.splits)

lemma normalize_frame:
  assumes "fs \<noteq> []" "frame_columns fs \<noteq> []" "''created_at'' \<in> set (frame_columns fs)"
  shows "normalize td tn tz fs =
     Inr \<lparr>columns = removeAll ''created_at_local'' (frame_columns fs),
          rows = map (\<lambda>(i, r). (wall_clock tz i,
                                 numeric_cells tn (removeAll ''created_at_local'' (frame_columns fs)) r))
                     (sort_key fst (kept_rows td fs))\<rparr>"
  using assms by (simp add: normalize_def Let_def kept_filter del: map_map)

lemma normalize_no_frame:
  assumes "fs = [] \<or> frame_columns fs = []"
  shows "normalize td tn tz fs = Inr empty_frame"
  using assms by (auto simp: normalize_def Let_def)

lemma no_frame_kept: "fs = [] \<or> frame_columns fs = [] \<Longrightarrow> kept_rows td fs = []"
  by (auto simp: kept_rows_def filter_empty_conv no_columns_no_instant)

lemma frame_cases:
  assumes "frame_columns fs = [] \<or> ''created_at'' \<in> set (frame_columns fs)"
  obtains (none) "fs = [] \<or> frame_columns fs = []"
  | (some) "fs \<noteq> []" "frame_columns fs \<noteq> []" "''created_at'' \<in> set (frame_columns fs)"
  using assms by auto















text \<open>The table of the damaged feed, row by row, in the order of the instants.\<close>

lemma damaged_normalized:
  "(case normalize example_datetime example_numeric utc damaged_readings of
      Inr df \<Rightarrow> map (\<lambda>(t, cells). (t, cells ''field2'', cells ''field4'')) (rows df)
    | Inl e \<Rightarrow> []) = [(60000000000, Some 40, None), (120000000000, None, Some 6.1)]"
  by code_simp

lemma index_of_rows:
  "map fst (map (\<lambda>(i, r). (w i, g r)) ks) = map w (map fst ks)"
  by (induction ks) auto

lemma sorted_index: "sorted (map fst (sort_key fst ks))"
  by (rule sorted_sort_key)

lemma mset_index: "mset (map fst (sort_key fst (kept_rows td fs))) = mset (instants td fs)"
  by (simp only: instants_def mset_map mset_sort)

lemma strict_mono_sorted_wrt:
  fixes w :: "int \<Rightarrow> int"
  assumes "strict_mono w"
  shows "sorted_wrt (<) (map w xs) \<longleftrightarrow> sorted_wrt (<) xs"
  using assms by (simp add: sorted_wrt_map strict_mono_less)

lemma mono_sorted:
  fixes w :: "int \<Rightarrow> int"
  assumes "mono w" "sorted xs"
  shows "sorted (map w xs)"
  using assms by (auto simp: sorted_wrt_map monoD intro: sorted_wrt_mono_rel[rotated])

text \<open>
  Claim C3, as the code has it. The rows of the normalized table are in ascending order
  of their instants: the index is the wall-clock image of the sorted instants of the
  rows kept, one entry per row, rows of the same instant staying apart. So the index is
  ascending (not strictly) whenever the zone's wall clock never goes back, and it is
  strictly increasing exactly when, in a zone whose wall clock always advances, no two
  rows kept share an instant.
\<close>

theorem normalized_index_order:
  assumes "frame_columns fs = [] \<or> ''created_at'' \<in> set (frame_columns fs)"
  shows "\<exists>df. normalize td tn tz fs = Inr df
     \<and> (\<exists>is. sorted is \<and> mset is = mset (instants td fs)
              \<and> map fst (rows df) = map (wall_clock tz) is)
     \<and> (mono (wall_clock tz) \<longrightarrow> sorted (map fst (rows df)))
     \<and> (strict_mono (wall_clock tz) \<longrightarrow>
          (sorted_wrt (<) (map fst (rows df)) \<longleftrightarrow> distinct (instants td fs)))"
  using assms
proof (cases rule: frame_cases)
  case none
  have "instants td fs = []" using no_frame_kept[OF none] by (simp add: instants_def)
  then show ?thesis
    unfolding normalize_no_frame[OF none] by (simp add: empty_frame_def)
next
  case some
  let ?is = "map fst (sort_key fst (kept_rows td fs))"
  have s: "sorted ?is" by (rule sorted_index)
  have m: "mset ?is = mset (instants td fs)" by (rule mset_index)
  have d: "distinct ?is \<longleftrightarrow> distinct (instants td fs)"
    using m by (rule mset_eq_imp_distinct_iff)
  have st: "sorted_wrt (<) ?is \<longleftrightarrow> distinct (instants td fs)"
    using s d by (simp add: strict_sorted_iff)
  let ?g = "\<lambda>(i, r). (wall_clock tz i,
               numeric_cells tn (removeAll ''created_at_local'' (frame_columns fs)) r)"
  let ?df = "\<lparr>columns = removeAll ''created_at_local'' (frame_columns fs),
              rows = map ?g (sort_key fst (kept_rows td fs))\<rparr>"
  have r: "map fst (rows ?df) = map (wall_clock tz) ?is"
    by (simp only: dataframe.simps index_of_rows)
  have c1: "\<exists>is. sorted is \<and> mset is = mset (instants td fs)
              \<and> map fst (rows ?df) = map (wall_clock tz) is"
    using s m r by blast
  have c2: "mono (wall_clock tz) \<longrightarrow> sorted (map fst (rows ?df))"
    unfolding r using s mono_sorted by blast
  have c3: "strict_mono (wall_clock tz) \<longrightarrow>
          (sorted_wrt (<) (map fst (rows ?df)) \<longleftrightarrow> distinct (instants td fs))"
    unfolding r using st strict_mono_sorted_wrt by blast
  have "normalize td tn tz fs = Inr ?df" by (rule normalize_frame[OF some])
  with c1 c2 c3 show ?thesis by (intro exI[of _ ?df] conjI)
qed
lemma three_columns: "frame_columns three_readings = [''created_at'', ''field2'']"
  by (simp add: frame_columns_def three_readings_def add_col_def)

lemma three_instants: "instants example_datetime three_readings = [0, minute_ns, 2 * minute_ns]"
  by (simp add: instants_def kept_rows_def three_readings_def instant_def raw_def
        example_datetime_def)

theorem normalized_index_order_witness:
  "(frame_columns three_readings = [] \<or> ''created_at'' \<in> set (frame_columns three_readings))
   \<and> mono (wall_clock utc) \<and> strict_mono (wall_clock utc)
   \<and> distinct (instants example_datetime three_readings)
   \<and> (\<exists>df. normalize example_datetime example_numeric utc three_readings = Inr df
          \<and> sorted (map fst (rows df)) \<and> sorted_wrt (<) (map fst (rows df)))"
proof -
  have h: "frame_columns three_readings = [] \<or> ''created_at'' \<in> set (frame_columns three_readings)"
    by (simp add: three_columns)
  have m: "mono (wall_clock utc)" "strict_mono (wall_clock utc)"
    by (simp_all add: utc_def mono_def strict_mono_def)
  have d: "distinct (instants example_datetime three_readings)"
    by (simp add: three_instants minute_ns_def)
  from normalized_index_order[OF h, of example_datetime example_numeric utc] h m d
  show ?thesis by auto
qed

text \<open>Two readings of the same instant: the index holds the timestamp twice.\<close>

theorem normalized_index_order_counterexample:
  "(case normalize example_datetime example_numeric utc same_instant_readings of
      Inr df \<Rightarrow> Some (map fst (rows df), sorted_wrt (<) (map fst (rows df)))
    | Inl e \<Rightarrow> None) = Some ([60000000000, 60000000000], False)"
  by code_simp

text \<open>
  Where the clocks are set back the index is not even ascending: the reading of minute 1
  carries the wall-clock minute 61 and comes before the reading of minute 2.
\<close>

lemma index_across_fall_back:
  "(case normalize example_datetime example_numeric fall_back_zone three_readings of
      Inr df \<Rightarrow> map fst (rows df)
    | Inl e \<Rightarrow> []) = [3600000000000, 3660000000000, 120000000000]"
  by code_simp

end
